theory Spec2Isabelle
  imports Complex_Main "HOL-Library.Log_Nat"
begin

section \<open>The arcade game of OpenGL2DTemplate.cpp\<close>

text \<open>
  A shallow embedding of the game logic of \<^verbatim>\<open>OpenGL2DTemplate.cpp\<close>: the utilities,
  the Bezier evaluator, placement, the simulation step, the target updater, the round
  start and the GLUT callbacks that change the game state. Drawing code reads the state
  and changes only \<^verbatim>\<open>bgShift\<close>, which no game logic reads; it is left out.

  Conventions of the embedding.
  \<^item> A C++ \<^verbatim>\<open>float\<close> is a number of the type \<^typ>\<open>real\<close>; there are no infinities and
    no NaN. The functions that compute the parameter and the point of the curve,
    \<^verbatim>\<open>updateTarget\<close> and \<^verbatim>\<open>bezierPoint\<close>, round the result of every operation and of every
    conversion of an \<^verbatim>\<open>int\<close> to single precision, as the machine does (\<open>fl\<close> below).
    The clock, the positions and the distances are computed in the reals: they are
    pixel values up to 1000 and times of a round, which rounding moves by less than
    one part in ten million.
  \<^item> The C++ \<^verbatim>\<open>int\<close> is the type \<^typ>\<open>int\<close>: no value of the game comes near overflow.
  \<^item> The global variables are the fields of the record \<open>world\<close>; a function that
    mutates globals takes the world and returns the new one.
  \<^item> Field \<^verbatim>\<open>f\<close> of \<^verbatim>\<open>struct Obj\<close>, \<^verbatim>\<open>Player\<close>, \<^verbatim>\<open>Target\<close> is \<open>obj_f\<close>, \<open>pl_f\<close>, \<open>tg_f\<close>.
  \<^item> An \<^verbatim>\<open>int[2]\<close> point is a pair of integers.
\<close>

subsection \<open>Window, layout and game configuration (lines 15--31)\<close>

definition W :: int where [simp]: "W = 1000"
definition H :: int where [simp]: "H = 700"
definition TOP_H :: int where [simp]: "TOP_H = 90"
definition BOT_H :: int where [simp]: "BOT_H = 120"
definition GAME_Y0 :: int where [simp]: "GAME_Y0 = BOT_H"
definition GAME_Y1 :: int where [simp]: "GAME_Y1 = H - TOP_H"

definition MAX_LIVES :: int where [simp]: "MAX_LIVES = 5"
definition PLAYER_SPEED :: real where [simp]: "PLAYER_SPEED = 240"
definition SPEED_BOOST :: real where [simp]: "SPEED_BOOST = 420"
definition POWERUP_DURATION :: real where [simp]: "POWERUP_DURATION = 4"
definition SHIELD_DURATION :: real where [simp]: "SHIELD_DURATION = 4"
definition ROUND_TIME_SEC :: int where [simp]: "ROUND_TIME_SEC = 60"
definition PLACE_MIN_DIST :: real where [simp]: "PLACE_MIN_DIST = 26"

subsection \<open>Utilities (lines 34--36)\<close>

definition clampf :: "real \<Rightarrow> real \<Rightarrow> real \<Rightarrow> real" where
  "clampf v lo hi = (if v < lo then lo else (if v > hi then hi else v))"

definition dist2 :: "real \<Rightarrow> real \<Rightarrow> real \<Rightarrow> real \<Rightarrow> real" where
  "dist2 x1 y1 x2 y2 = (let dx = x1 - x2; dy = y1 - y2 in dx * dx + dy * dy)"

definition inGameArea :: "real \<Rightarrow> real \<Rightarrow> bool" where
  "inGameArea x y \<longleftrightarrow>
     x \<ge> 0 \<and> x \<le> real_of_int W \<and> y \<ge> real_of_int GAME_Y0 \<and> y \<le> real_of_int GAME_Y1"

text \<open>The conversion \<^verbatim>\<open>(int)x\<close> of a float drops the fractional part (rounds toward 0).\<close>

definition cint :: "real \<Rightarrow> int" where
  "cint v = (if v \<ge> 0 then \<lfloor>v\<rfloor> else \<lceil>v\<rceil>)"

subsection \<open>Single precision\<close>

text \<open>
  The rounding of a real number to the nearest \<^verbatim>\<open>float\<close> (IEEE 754 binary32: 24
  significant bits, least exponent \<open>-126\<close>, subnormal numbers, ties to the even
  significand), which every \<^verbatim>\<open>float\<close> operation of the machine applies to its exact
  result. \<open>pow2 k\<close> is \<open>2\<close> to the power \<open>k\<close>; \<open>expo x\<close> is the exponent of the binade of
  \<open>x\<close>, the \<open>e\<close> with \<open>2 ^ e \<le> \<bar>x\<bar> < 2 ^ (e + 1)\<close>, but at least \<open>-126\<close>; \<open>rne\<close> rounds
  to the nearest integer, a tie to the even one; and \<open>fl x\<close> rounds \<open>x\<close> to a multiple
  of the unit in the last place \<open>2 ^ (expo x - 23)\<close>. A result beyond the largest
  \<^verbatim>\<open>float\<close>, about \<open>3.4e38\<close>, which the machine turns into an infinity, is outside the
  embedding.
\<close>

definition pow2 :: "int \<Rightarrow> real" where
  "pow2 k = (if 0 \<le> k then 2 ^ nat k else 1 / 2 ^ nat (- k))"

definition expo :: "real \<Rightarrow> int" where
  "expo x = (let a = \<bar>x\<bar> in
      if a = 0 then - 126
      else if 1 \<le> a then bitlen \<lfloor>a\<rfloor> - 1
      else max (- 126) (- bitlen (\<lceil>1 / a\<rceil> - 1)))"

definition rne :: "real \<Rightarrow> int" where
  "rne y = (let n = \<lfloor>y\<rfloor>; d = y - real_of_int n in
      if d < 1 / 2 then n else if 1 / 2 < d then n + 1 else if even n then n else n + 1)"

definition fl :: "real \<Rightarrow> real" where
  "fl x = (let q = pow2 (expo x - 23) in real_of_int (rne (x / q)) * q)"

text \<open>
  The operations \<^verbatim>\<open>+\<close>, \<^verbatim>\<open>-\<close> and \<^verbatim>\<open>*\<close> on two \<^verbatim>\<open>float\<close> values, and the conversion of an
  \<^verbatim>\<open>int\<close> to \<^verbatim>\<open>float\<close>, which an \<^verbatim>\<open>int\<close> operand of a \<^verbatim>\<open>float\<close> operation undergoes.
\<close>

definition fadd :: "real \<Rightarrow> real \<Rightarrow> real" where
  "fadd a b = fl (a + b)"

definition fsub :: "real \<Rightarrow> real \<Rightarrow> real" where
  "fsub a b = fl (a - b)"

definition fmul :: "real \<Rightarrow> real \<Rightarrow> real" where
  "fmul a b = fl (a * b)"

definition floatOfInt :: "int \<Rightarrow> real" where
  "floatOfInt n = fl (real_of_int n)"

subsection \<open>Objects, player and target (lines 45--75)\<close>

datatype ObjType = OBJ_OBSTACLE | OBJ_COLLECT | OBJ_PU_SPEED | OBJ_PU_SHIELD

record Obj =
  obj_x :: real
  obj_y :: real
  obj_r :: real
  obj_type :: ObjType

record Player =
  pl_x :: real
  pl_y :: real
  pl_r :: real
  pl_angleDeg :: real
  pl_lives :: int
  pl_score :: int
  pl_shielded :: bool
  pl_shieldUntil :: real
  pl_speedUntil :: real

record Target =
  tg_r :: real
  tg_p0 :: "int \<times> int"
  tg_p1 :: "int \<times> int"
  tg_p2 :: "int \<times> int"
  tg_p3 :: "int \<times> int"
  tg_t :: real
  tg_dir :: int

subsection \<open>The Bezier evaluator (lines 78--87)\<close>

text \<open>
  The sums and products of lines 83 and 84 associate to the left, every one of them a
  \<^verbatim>\<open>float\<close> operation; the factor \<^verbatim>\<open>3\<close> and the coordinates of the control points are
  \<^verbatim>\<open>int\<close> operands, converted to \<^verbatim>\<open>float\<close>.
\<close>

definition bezierPoint ::
  "real \<Rightarrow> int \<times> int \<Rightarrow> int \<times> int \<Rightarrow> int \<times> int \<Rightarrow> int \<times> int \<Rightarrow> int \<times> int" where
  "bezierPoint t p0 p1 p2 p3 =
     (let u = fsub 1 t;
          uu = fmul u u;
          tt = fmul t t;
          uuu = fmul uu u;
          ttt = fmul tt t;
          x = fadd (fadd (fadd (fmul uuu (floatOfInt (fst p0)))
                               (fmul (fmul (fmul (fmul 3 u) u) t) (floatOfInt (fst p1))))
                         (fmul (fmul (fmul 3 u) tt) (floatOfInt (fst p2))))
                   (fmul ttt (floatOfInt (fst p3)));
          y = fadd (fadd (fadd (fmul uuu (floatOfInt (snd p0)))
                               (fmul (fmul (fmul (fmul 3 u) u) t) (floatOfInt (snd p1))))
                         (fmul (fmul (fmul 3 u) tt) (floatOfInt (snd p2))))
                   (fmul ttt (floatOfInt (snd p3)))
      in (cint x, cint y))"

subsection \<open>Game state (lines 52--54, 90--104, 647)\<close>

datatype Phase = PHASE_EDIT | PHASE_PLAY | PHASE_WIN | PHASE_LOSE

datatype PlaceMode = PLACE_NONE | PLACE_OBS | PLACE_COL | PLACE_PU_SPEED | PLACE_PU_SHIELD

record world =
  obstacles :: "Obj list"
  collectibles :: "Obj list"
  powerups :: "Obj list"
  player :: Player
  target :: Target
  nextHitTime :: real
  phase :: Phase
  placeMode :: PlaceMode
  timeSec :: real
  roundStart :: real
  timeLeft :: int
  keyW :: bool
  keyA :: bool
  keyS :: bool
  keyD :: bool
  keyUp :: bool
  keyLeft :: bool
  keyDown :: bool
  keyRight :: bool
  lastMs :: int

text \<open>
  The values the globals have when \<^verbatim>\<open>main\<close> enters the GLUT loop: the initialisers of
  the declarations, zero for the control points of the global \<^verbatim>\<open>target\<close>, and
  \<^verbatim>\<open>initScene\<close> (lines 664--673), which stores the values the initialisers gave already.
\<close>

definition initPlayer :: Player where
  "initPlayer = \<lparr> pl_x = real_of_int W * 0.5, pl_y = real_of_int GAME_Y0 + 40, pl_r = 14,
     pl_angleDeg = 90, pl_lives = MAX_LIVES, pl_score = 0, pl_shielded = False,
     pl_shieldUntil = 0, pl_speedUntil = 0 \<rparr>"

definition initTarget :: Target where
  "initTarget = \<lparr> tg_r = 16, tg_p0 = (0, 0), tg_p1 = (0, 0), tg_p2 = (0, 0), tg_p3 = (0, 0),
     tg_t = 0, tg_dir = 1 \<rparr>"

definition initWorld :: world where
  "initWorld = \<lparr> obstacles = [], collectibles = [], powerups = [],
     player = initPlayer, target = initTarget, nextHitTime = 0,
     phase = PHASE_EDIT, placeMode = PLACE_NONE,
     timeSec = 0, roundStart = 0, timeLeft = ROUND_TIME_SEC,
     keyW = False, keyA = False, keyS = False, keyD = False,
     keyUp = False, keyLeft = False, keyDown = False, keyRight = False,
     lastMs = 0 \<rparr>"

subsection \<open>Placement and overlap (lines 308--318)\<close>

text \<open>The position of the target now, derived from its parameter and control points.\<close>

definition targetPos :: "Target \<Rightarrow> int \<times> int" where
  "targetPos tg = bezierPoint (tg_t tg) (tg_p0 tg) (tg_p1 tg) (tg_p2 tg) (tg_p3 tg)"

definition overlapsAny :: "world \<Rightarrow> real \<Rightarrow> real \<Rightarrow> real \<Rightarrow> bool" where
  "overlapsAny s x y r =
     (let r2 = (r + PLACE_MIN_DIST) * (r + PLACE_MIN_DIST) in
      if list_ex (\<lambda>ob. dist2 x y (obj_x ob) (obj_y ob) < r2) (obstacles s) then True
      else if list_ex (\<lambda>c. dist2 x y (obj_x c) (obj_y c) < r2) (collectibles s) then True
      else if list_ex (\<lambda>p. dist2 x y (obj_x p) (obj_y p) < r2) (powerups s) then True
      else if dist2 x y (pl_x (player s)) (pl_y (player s)) < r2 then True
      else let curT = targetPos (target s) in
        if dist2 x y (real_of_int (fst curT)) (real_of_int (snd curT)) < r2 then True
        else False)"

subsection \<open>Collision and movement (lines 392--434)\<close>

definition currentSpeed :: "world \<Rightarrow> real" where
  "currentSpeed s =
     (let now = timeSec s in
      if now < pl_speedUntil (player s) then SPEED_BOOST else PLAYER_SPEED)"

definition intersectCircleCircle ::
  "real \<Rightarrow> real \<Rightarrow> real \<Rightarrow> real \<Rightarrow> real \<Rightarrow> real \<Rightarrow> bool" where
  "intersectCircleCircle x1 y1 r1 x2 y2 r2 =
     (let rr = (r1 + r2) * (r1 + r2) in dist2 x1 y1 x2 y2 \<le> rr)"

text \<open>
  The candidate position of \<^verbatim>\<open>tryMove\<close> (lines 405--408), and the test of its loop body
  (lines 414--417): the circle of radius \<open>pr\<close> at \<open>(nx, ny)\<close> against the square of
  half-width \<open>obj_r ob\<close> around the obstacle \<open>ob\<close>.
\<close>

definition candidate :: "Player \<Rightarrow> real \<Rightarrow> real \<Rightarrow> real \<times> real" where
  "candidate p dx dy =
     (let nx = pl_x p + dx; ny = pl_y p + dy
      in (clampf nx (pl_r p) (real_of_int W - pl_r p),
          clampf ny (real_of_int GAME_Y0 + pl_r p) (real_of_int GAME_Y1 - pl_r p)))"

definition hitsSquare :: "real \<Rightarrow> real \<Rightarrow> real \<Rightarrow> Obj \<Rightarrow> bool" where
  "hitsSquare nx ny pr ob =
     (let half = obj_r ob;
          cx = clampf nx (obj_x ob - half) (obj_x ob + half);
          cy = clampf ny (obj_y ob - half) (obj_y ob + half)
      in dist2 nx ny cx cy < pr * pr)"

definition tryMove :: "real \<Rightarrow> real \<Rightarrow> real \<Rightarrow> world \<Rightarrow> world" where
  "tryMove dx dy dt s =
     (let p = player s;
          (nx, ny) = candidate p dx dy;
          blocked = list_ex (hitsSquare nx ny (pl_r p)) (obstacles s)
      in if blocked then
           (if \<not> pl_shielded p \<and> timeSec s \<ge> nextHitTime s then
              (let lives' = max 0 (pl_lives p - 1);
                   s1 = s\<lparr>player := p\<lparr>pl_lives := lives'\<rparr>, nextHitTime := timeSec s + 0.5\<rparr>
               in if lives' = 0 then s1\<lparr>phase := PHASE_LOSE\<rparr> else s1)
            else s)
         else s\<lparr>player := p\<lparr>pl_x := nx, pl_y := ny\<rparr>\<rparr>)"

subsection \<open>The simulation step (lines 437--494)\<close>

text \<open>Removal of the element at index \<open>i\<close>: \<^verbatim>\<open>v.erase(v.begin() + i)\<close>.\<close>

definition erase :: "'a list \<Rightarrow> nat \<Rightarrow> 'a list" where
  "erase xs i = take i xs @ drop (Suc i) xs"

text \<open>Whether the circle of the player meets the circle of an object.\<close>

definition touches :: "Player \<Rightarrow> Obj \<Rightarrow> bool" where
  "touches p ob =
     intersectCircleCircle (pl_x p) (pl_y p) (pl_r p) (obj_x ob) (obj_y ob) (obj_r ob)"

text \<open>The loop over the collectibles (lines 466--472), from index \<open>i\<close> on.\<close>

function collectLoop :: "nat \<Rightarrow> world \<Rightarrow> world" where
  "collectLoop i s =
     (if i < length (collectibles s) then
        (if touches (player s) (collectibles s ! i) then
           collectLoop i
             (s\<lparr>player := (player s)\<lparr>pl_score := pl_score (player s) + 5\<rparr>,
                collectibles := erase (collectibles s) i\<rparr>)
         else collectLoop (i + 1) s)
      else s)"
  by pat_completeness auto
termination
  by (relation "measure (\<lambda>(i, s). length (collectibles s) - i)") (auto simp: erase_def)

declare collectLoop.simps [simp del]

text \<open>The loop over the power-ups (lines 475--487), from index \<open>i\<close> on.\<close>

function powerupLoop :: "nat \<Rightarrow> world \<Rightarrow> world" where
  "powerupLoop i s =
     (if i < length (powerups s) then
        (if touches (player s) (powerups s ! i) then
           powerupLoop i
             ((if obj_type (powerups s ! i) = OBJ_PU_SPEED then
                 s\<lparr>player := (player s)\<lparr>pl_speedUntil := timeSec s + POWERUP_DURATION\<rparr>\<rparr>
               else
                 s\<lparr>player := (player s)\<lparr>pl_shielded := True,
                      pl_shieldUntil := timeSec s + SHIELD_DURATION\<rparr>\<rparr>)
              \<lparr>powerups := erase (powerups s) i\<rparr>)
         else powerupLoop (i + 1) s)
      else s)"
  by pat_completeness auto
termination
  by (relation "measure (\<lambda>(i, s). length (powerups s) - i)") (auto simp: erase_def)

declare powerupLoop.simps [simp del]

text \<open>
  \<^verbatim>\<open>atan2f\<close> of the C library, as the angle of the point \<open>(x, y)\<close> in \<open>(-\<pi>, \<pi>]\<close>.
\<close>

definition atan2f :: "real \<Rightarrow> real \<Rightarrow> real" where
  "atan2f y x =
     (if x > 0 then arctan (y / x)
      else if x < 0 then (if y \<ge> 0 then arctan (y / x) + pi else arctan (y / x) - pi)
      else if y > 0 then pi / 2
      else if y < 0 then - pi / 2
      else 0)"

text \<open>The countdown (lines 441--443).\<close>

definition countdown :: "world \<Rightarrow> world" where
  "countdown s =
     (let elapsed = timeSec s - roundStart s;
          remain = ROUND_TIME_SEC - cint elapsed
      in s\<lparr>timeLeft := (if remain > 0 then remain else 0)\<rparr>)"

text \<open>The expiry of the shield (line 447).\<close>

definition expirePowerups :: "world \<Rightarrow> world" where
  "expirePowerups s =
     (if timeSec s > pl_shieldUntil (player s)
      then s\<lparr>player := (player s)\<lparr>pl_shielded := False\<rparr>\<rparr> else s)"

text \<open>The velocity the keys ask for (lines 450--455).\<close>

definition inputVelocity :: "world \<Rightarrow> real \<times> real" where
  "inputVelocity s =
     (let vx = 0; vy = 0;
          spd = currentSpeed s;
          vy = (if keyW s \<or> keyUp s then vy + spd else vy);
          vy = (if keyS s \<or> keyDown s then vy - spd else vy);
          vx = (if keyA s \<or> keyLeft s then vx - spd else vx);
          vx = (if keyD s \<or> keyRight s then vx + spd else vx)
      in (vx, vy))"

text \<open>The rotation to face the movement (lines 458--460).\<close>

definition faceMovement :: "real \<Rightarrow> real \<Rightarrow> world \<Rightarrow> world" where
  "faceMovement vx vy s =
     (if vx \<noteq> 0 \<or> vy \<noteq> 0
      then s\<lparr>player := (player s)\<lparr>pl_angleDeg := atan2f vy vx * 57.29578\<rparr>\<rparr> else s)"

text \<open>The capture of the target (lines 490--493).\<close>

definition targetCheck :: "world \<Rightarrow> world" where
  "targetCheck s =
     (let curT = targetPos (target s) in
      if intersectCircleCircle (pl_x (player s)) (pl_y (player s)) (pl_r (player s))
           (real_of_int (fst curT)) (real_of_int (snd curT)) (tg_r (target s))
      then s\<lparr>phase := PHASE_WIN\<rparr> else s)"

definition updateGame :: "real \<Rightarrow> world \<Rightarrow> world" where
  "updateGame dt s =
     (if phase s \<noteq> PHASE_PLAY then s
      else
        let s = countdown s in
        if timeLeft s \<le> 0 then s\<lparr>phase := PHASE_LOSE\<rparr>
        else
          let s = expirePowerups s;
              (vx, vy) = inputVelocity s;
              s = faceMovement vx vy s;
              s = tryMove (vx * dt) (vy * dt) dt s;
              s = collectLoop 0 s;
              s = powerupLoop 0 s
          in targetCheck s)"

subsection \<open>The target updater (lines 496--502)\<close>

text \<open>
  \<^verbatim>\<open>speedT\<close> is the \<^verbatim>\<open>float\<close> nearest to 0.35; the step \<^verbatim>\<open>target.dir * speedT * dt\<close> is two
  \<^verbatim>\<open>float\<close> products, and \<^verbatim>\<open>+=\<close> a \<^verbatim>\<open>float\<close> sum.
\<close>

definition updateTarget :: "real \<Rightarrow> world \<Rightarrow> world" where
  "updateTarget dt s =
     (let speedT = fl 0.35;
          tg = target s;
          tg = tg\<lparr>tg_t := fadd (tg_t tg) (fmul (fmul (floatOfInt (tg_dir tg)) speedT) dt)\<rparr>;
          tg = (if tg_t tg > 1 then tg\<lparr>tg_t := 1, tg_dir := - 1\<rparr> else tg);
          tg = (if tg_t tg < 0 then tg\<lparr>tg_t := 0, tg_dir := 1\<rparr> else tg)
      in s\<lparr>target := tg\<rparr>)"

subsection \<open>Input (lines 553--643)\<close>

definition startRound :: "world \<Rightarrow> world" where
  "startRound s =
     (let p = (player s)\<lparr>pl_x := real_of_int W * 0.5, pl_y := real_of_int GAME_Y0 + 40,
                 pl_angleDeg := 90, pl_lives := MAX_LIVES, pl_shielded := False,
                 pl_score := 0, pl_speedUntil := 0, pl_shieldUntil := 0\<rparr>;
          yTop = H - TOP_H - 60;
          tg = (target s)\<lparr>tg_p0 := (100, yTop), tg_p1 := (300, yTop + 80),
                 tg_p2 := (700, yTop - 80), tg_p3 := (900, yTop),
                 tg_t := 0, tg_dir := 1\<rparr>
      in s\<lparr>player := p, target := tg, roundStart := timeSec s,
            timeLeft := ROUND_TIME_SEC, phase := PHASE_PLAY\<rparr>)"

definition Keyboard :: "char \<Rightarrow> int \<Rightarrow> int \<Rightarrow> world \<Rightarrow> world" where
  "Keyboard key x y s =
     (if key = CHR ''r'' \<or> key = CHR ''R'' then startRound s
      else
        let s = (if key = CHR ''w'' then s\<lparr>keyW := True\<rparr> else s);
            s = (if key = CHR ''s'' then s\<lparr>keyS := True\<rparr> else s);
            s = (if key = CHR ''a'' then s\<lparr>keyA := True\<rparr> else s);
            s = (if key = CHR ''d'' then s\<lparr>keyD := True\<rparr> else s)
        in s)"

definition KeyboardUp :: "char \<Rightarrow> int \<Rightarrow> int \<Rightarrow> world \<Rightarrow> world" where
  "KeyboardUp key x y s =
     (let s = (if key = CHR ''w'' then s\<lparr>keyW := False\<rparr> else s);
          s = (if key = CHR ''s'' then s\<lparr>keyS := False\<rparr> else s);
          s = (if key = CHR ''a'' then s\<lparr>keyA := False\<rparr> else s);
          s = (if key = CHR ''d'' then s\<lparr>keyD := False\<rparr> else s)
      in s)"

text \<open>The key and button codes of \<^verbatim>\<open>glut.h\<close>, which is not part of the repository.\<close>

definition GLUT_KEY_LEFT :: int where [simp]: "GLUT_KEY_LEFT = 100"
definition GLUT_KEY_UP :: int where [simp]: "GLUT_KEY_UP = 101"
definition GLUT_KEY_RIGHT :: int where [simp]: "GLUT_KEY_RIGHT = 102"
definition GLUT_KEY_DOWN :: int where [simp]: "GLUT_KEY_DOWN = 103"
definition GLUT_LEFT_BUTTON :: int where [simp]: "GLUT_LEFT_BUTTON = 0"
definition GLUT_DOWN :: int where [simp]: "GLUT_DOWN = 0"

definition Special :: "int \<Rightarrow> int \<Rightarrow> int \<Rightarrow> world \<Rightarrow> world" where
  "Special key x y s =
     (let s = (if key = GLUT_KEY_UP then s\<lparr>keyUp := True\<rparr> else s);
          s = (if key = GLUT_KEY_DOWN then s\<lparr>keyDown := True\<rparr> else s);
          s = (if key = GLUT_KEY_LEFT then s\<lparr>keyLeft := True\<rparr> else s);
          s = (if key = GLUT_KEY_RIGHT then s\<lparr>keyRight := True\<rparr> else s)
      in s)"

definition SpecialUp :: "int \<Rightarrow> int \<Rightarrow> int \<Rightarrow> world \<Rightarrow> world" where
  "SpecialUp key x y s =
     (let s = (if key = GLUT_KEY_UP then s\<lparr>keyUp := False\<rparr> else s);
          s = (if key = GLUT_KEY_DOWN then s\<lparr>keyDown := False\<rparr> else s);
          s = (if key = GLUT_KEY_LEFT then s\<lparr>keyLeft := False\<rparr> else s);
          s = (if key = GLUT_KEY_RIGHT then s\<lparr>keyRight := False\<rparr> else s)
      in s)"

text \<open>
  The object a click at \<open>(x, y)\<close> places in mode \<open>m\<close> (lines 624--640): its radius and
  type, and the collection it goes to.
\<close>

definition placeObject :: "PlaceMode \<Rightarrow> real \<Rightarrow> real \<Rightarrow> world \<Rightarrow> world" where
  "placeObject m x y s =
     (let ob = \<lparr> obj_x = x, obj_y = y, obj_r = 16, obj_type = OBJ_OBSTACLE \<rparr> in
      if m = PLACE_OBS then
        (let ob = ob\<lparr>obj_type := OBJ_OBSTACLE, obj_r := 18\<rparr> in
         if \<not> overlapsAny s (obj_x ob) (obj_y ob) (obj_r ob)
         then s\<lparr>obstacles := obstacles s @ [ob]\<rparr> else s)
      else if m = PLACE_COL then
        (let ob = ob\<lparr>obj_type := OBJ_COLLECT, obj_r := 14\<rparr> in
         if \<not> overlapsAny s (obj_x ob) (obj_y ob) (obj_r ob)
         then s\<lparr>collectibles := collectibles s @ [ob]\<rparr> else s)
      else if m = PLACE_PU_SPEED then
        (let ob = ob\<lparr>obj_type := OBJ_PU_SPEED, obj_r := 14\<rparr> in
         if \<not> overlapsAny s (obj_x ob) (obj_y ob) (obj_r ob)
         then s\<lparr>powerups := powerups s @ [ob]\<rparr> else s)
      else if m = PLACE_PU_SHIELD then
        (let ob = ob\<lparr>obj_type := OBJ_PU_SHIELD, obj_r := 14\<rparr> in
         if \<not> overlapsAny s (obj_x ob) (obj_y ob) (obj_r ob)
         then s\<lparr>powerups := powerups s @ [ob]\<rparr> else s)
      else s)"

definition Mouse :: "int \<Rightarrow> int \<Rightarrow> int \<Rightarrow> int \<Rightarrow> world \<Rightarrow> world" where
  "Mouse button state x y s =
     (if state \<noteq> GLUT_DOWN \<or> button \<noteq> GLUT_LEFT_BUTTON then s
      else
        let y = H - y in
        if y \<le> BOT_H then
          (if dist2 (real_of_int x) (real_of_int y) 80 (real_of_int BOT_H * 0.5) < 35 * 35
             then s\<lparr>placeMode := PLACE_OBS\<rparr>
           else if dist2 (real_of_int x) (real_of_int y) 240 (real_of_int BOT_H * 0.5) < 35 * 35
             then s\<lparr>placeMode := PLACE_COL\<rparr>
           else if dist2 (real_of_int x) (real_of_int y) 400 (real_of_int BOT_H * 0.5) < 35 * 35
             then s\<lparr>placeMode := PLACE_PU_SPEED\<rparr>
           else if dist2 (real_of_int x) (real_of_int y) 560 (real_of_int BOT_H * 0.5) < 35 * 35
             then s\<lparr>placeMode := PLACE_PU_SHIELD\<rparr>
           else s\<lparr>placeMode := PLACE_NONE\<rparr>)
        else if phase s = PHASE_EDIT \<and> inGameArea (real_of_int x) (real_of_int y)
          then placeObject (placeMode s) (real_of_int x) (real_of_int y) s
        else s)"

subsection \<open>The timer (lines 646--661)\<close>

text \<open>
  The time step of a tick at clock reading \<open>nowMs\<close>, and the state in which the tick
  calls \<^verbatim>\<open>updateGame\<close>: the clock advanced and the target moved.
\<close>

definition tickDt :: "int \<Rightarrow> world \<Rightarrow> real" where
  "tickDt nowMs s =
     (let last = (if lastMs s = 0 then nowMs else lastMs s)
      in real_of_int (nowMs - last) / 1000)"

definition tickClock :: "int \<Rightarrow> world \<Rightarrow> world" where
  "tickClock nowMs s =
     (let dt = tickDt nowMs s;
          s = s\<lparr>lastMs := nowMs\<rparr>;
          s = s\<lparr>timeSec := timeSec s + dt\<rparr>
      in updateTarget dt s)"

definition Timer :: "int \<Rightarrow> world \<Rightarrow> world" where
  "Timer nowMs s =
     (let dt = tickDt nowMs s;
          s = tickClock nowMs s
      in if phase s = PHASE_PLAY then updateGame dt s else s)"

subsection \<open>Runs of the program\<close>

text \<open>
  GLUT delivers one callback at a time. A timer callback comes with the reading of the
  millisecond clock, which never goes back: it is at least the reading of the tick before.
\<close>

datatype event =
  EvTimer int
  | EvKeyboard char int int
  | EvKeyboardUp char int int
  | EvSpecial int int int
  | EvSpecialUp int int int
  | EvMouse int int int int

fun handle :: "event \<Rightarrow> world \<Rightarrow> world" where
  "handle (EvTimer nowMs) s = Timer nowMs s"
| "handle (EvKeyboard key x y) s = Keyboard key x y s"
| "handle (EvKeyboardUp key x y) s = KeyboardUp key x y s"
| "handle (EvSpecial key x y) s = Special key x y s"
| "handle (EvSpecialUp key x y) s = SpecialUp key x y s"
| "handle (EvMouse button state x y) s = Mouse button state x y s"

fun admissible :: "event \<Rightarrow> world \<Rightarrow> bool" where
  "admissible (EvTimer nowMs) s = (lastMs s \<le> nowMs)"
| "admissible _ s = True"

text \<open>\<open>reaches s s'\<close>: some sequence of callbacks takes the program from \<open>s\<close> to \<open>s'\<close>.\<close>

inductive reaches :: "world \<Rightarrow> world \<Rightarrow> bool" where
  reaches_refl: "reaches s s"
| reaches_step: "reaches s s' \<Longrightarrow> admissible e s' \<Longrightarrow> reaches s (handle e s')"

definition reachable :: "world \<Rightarrow> bool" where
  "reachable s = reaches initWorld s"

text \<open>
  \<open>playTick dt s\<close>: in some run of the program a timer tick calls \<^verbatim>\<open>updateGame(dt)\<close> in
  the state \<open>s\<close>. These are the play-phase ticks of the program.
\<close>

definition playTick :: "real \<Rightarrow> world \<Rightarrow> bool" where
  "playTick dt s \<longleftrightarrow>
     (\<exists>s0 nowMs. reachable s0 \<and> lastMs s0 \<le> nowMs \<and> dt = tickDt nowMs s0
        \<and> s = tickClock nowMs s0 \<and> phase s = PHASE_PLAY)"

subsection \<open>Notions used in the statements\<close>

text \<open>
  The state of a tick after its movement sub-step (lines 447--463), for a tick whose
  countdown has not run out.
\<close>

definition afterMove :: "real \<Rightarrow> world \<Rightarrow> world" where
  "afterMove dt s =
     (let s = expirePowerups (countdown s);
          (vx, vy) = inputVelocity s;
          s = faceMovement vx vy s
      in tryMove (vx * dt) (vy * dt) dt s)"

text \<open>
  The candidate position of a tick: the position of the player plus velocity times
  \<open>dt\<close>, clamped to the arena; and whether it lies in the square of some obstacle.
\<close>

definition tickCandidate :: "real \<Rightarrow> world \<Rightarrow> real \<times> real" where
  "tickCandidate dt s =
     (let (vx, vy) = inputVelocity s in candidate (player s) (vx * dt) (vy * dt))"

definition tickBlocked :: "real \<Rightarrow> world \<Rightarrow> bool" where
  "tickBlocked dt s =
     (let (nx, ny) = tickCandidate dt s
      in list_ex (hitsSquare nx ny (pl_r (player s))) (obstacles s))"

text \<open>Whether the circle of the player meets the target at its derived position.\<close>

definition onTarget :: "world \<Rightarrow> bool" where
  "onTarget s =
     (let curT = targetPos (target s) in
      intersectCircleCircle (pl_x (player s)) (pl_y (player s)) (pl_r (player s))
        (real_of_int (fst curT)) (real_of_int (snd curT)) (tg_r (target s)))"

text \<open>The three collections of placed objects.\<close>

definition placed :: "world \<Rightarrow> Obj list \<times> Obj list \<times> Obj list" where
  "placed s = (obstacles s, collectibles s, powerups s)"

text \<open>
  The state in which a tick calls \<^verbatim>\<open>tryMove\<close>: after the countdown, the expiry of the
  shield and the rotation (lines 441--460).
\<close>

definition beforeMove :: "world \<Rightarrow> world" where
  "beforeMove s = faceMovement (fst (inputVelocity s)) (snd (inputVelocity s))
                    (expirePowerups (countdown s))"

text \<open>The pick-ups and the capture check of a tick (lines 466--493).\<close>

definition finish :: "world \<Rightarrow> world" where
  "finish m = targetCheck (powerupLoop 0 (collectLoop 0 m))"

text \<open>
  Placement: the distance of two points, the positions a new object must keep away
  from, whether the point \<open>(x, y)\<close> is closer than \<open>r + PLACE_MIN_DIST\<close> to one of them,
  and the radius, the type and the collection of the object a placement mode creates.
\<close>

definition distance :: "real \<Rightarrow> real \<Rightarrow> real \<Rightarrow> real \<Rightarrow> real" where
  "distance x1 y1 x2 y2 = sqrt (dist2 x1 y1 x2 y2)"

definition entityPositions :: "world \<Rightarrow> (real \<times> real) list" where
  "entityPositions s =
     map (\<lambda>ob. (obj_x ob, obj_y ob)) (obstacles s @ collectibles s @ powerups s)
     @ [(pl_x (player s), pl_y (player s)),
        (real_of_int (fst (targetPos (target s))), real_of_int (snd (targetPos (target s))))]"

definition tooClose :: "world \<Rightarrow> real \<Rightarrow> real \<Rightarrow> real \<Rightarrow> bool" where
  "tooClose s x y r =
     list_ex (\<lambda>(a, b). distance x y a b < r + PLACE_MIN_DIST) (entityPositions s)"

definition placeRadius :: "PlaceMode \<Rightarrow> real" where
  "placeRadius m = (if m = PLACE_OBS then 18 else 14)"

definition placeType :: "PlaceMode \<Rightarrow> ObjType" where
  "placeType m =
     (case m of PLACE_COL \<Rightarrow> OBJ_COLLECT | PLACE_PU_SPEED \<Rightarrow> OBJ_PU_SPEED
      | PLACE_PU_SHIELD \<Rightarrow> OBJ_PU_SHIELD | _ \<Rightarrow> OBJ_OBSTACLE)"

definition addPlaced :: "Obj \<Rightarrow> world \<Rightarrow> world" where
  "addPlaced ob s =
     (case obj_type ob of
        OBJ_OBSTACLE \<Rightarrow> s\<lparr>obstacles := obstacles s @ [ob]\<rparr>
      | OBJ_COLLECT \<Rightarrow> s\<lparr>collectibles := collectibles s @ [ob]\<rparr>
      | _ \<Rightarrow> s\<lparr>powerups := powerups s @ [ob]\<rparr>)"

text \<open>An \<^verbatim>\<open>int\<close> that the conversion to \<^verbatim>\<open>float\<close> leaves as it is.\<close>

definition exactFloat :: "int \<Rightarrow> bool" where
  "exactFloat n \<longleftrightarrow> floatOfInt n = real_of_int n"

text \<open>
  The target updater run over a list of time steps; the value that line 499 assigns to
  the parameter, which the two tests of lines 500 and 501 then compare with the bounds;
  and the range of the parameter and the direction.
\<close>

definition targetRun :: "real list \<Rightarrow> world \<Rightarrow> world" where
  "targetRun dts s = foldl (\<lambda>s dt. updateTarget dt s) s dts"

definition targetRaw :: "real \<Rightarrow> world \<Rightarrow> real" where
  "targetRaw dt s =
     fadd (tg_t (target s)) (fmul (fmul (floatOfInt (tg_dir (target s))) (fl 0.35)) dt)"

definition targetOk :: "world \<Rightarrow> bool" where
  "targetOk s \<longleftrightarrow> 0 \<le> tg_t (target s) \<and> tg_t (target s) \<le> 1
      \<and> (tg_dir (target s) = 1 \<or> tg_dir (target s) = - 1)"

text \<open>
  An invariant of the runs of the program. The clock is not behind the round start;
  the lives are within bounds and at least one while the round is played; the player
  has radius 14 and, while editing, stands at the start position; every collectible has
  radius 14 and keeps the placement distance from the start position; and while the
  round is played no collectible is left under the player.
\<close>

definition invBase :: "world \<Rightarrow> bool" where
  "invBase s \<longleftrightarrow>
     0 \<le> lastMs s \<and> roundStart s \<le> timeSec s
     \<and> 0 \<le> pl_lives (player s) \<and> pl_lives (player s) \<le> MAX_LIVES
     \<and> (phase s = PHASE_PLAY \<longrightarrow> 1 \<le> pl_lives (player s))
     \<and> pl_r (player s) = 14
     \<and> (phase s = PHASE_EDIT \<longrightarrow> pl_x (player s) = 500 \<and> pl_y (player s) = 160)
     \<and> list_all (\<lambda>c. obj_r c = 14 \<and> 1600 \<le> dist2 500 160 (obj_x c) (obj_y c)) (collectibles s)"

definition invClear :: "world \<Rightarrow> bool" where
  "invClear s \<longleftrightarrow>
     (phase s = PHASE_PLAY \<longrightarrow> list_all (\<lambda>c. \<not> touches (player s) c) (collectibles s))"

definition invariant :: "world \<Rightarrow> bool" where
  "invariant s \<longleftrightarrow> invBase s \<and> invClear s"

subsection \<open>Sample runs\<close>

definition run :: "event list \<Rightarrow> world \<Rightarrow> world" where
  "run es s = foldl (\<lambda>s e. handle e s) s es"

fun admissibleRun :: "event list \<Rightarrow> world \<Rightarrow> bool" where
  "admissibleRun [] s = True"
| "admissibleRun (e # es) s = (admissible e s \<and> admissibleRun es (handle e s))"

text \<open>The target as \<^verbatim>\<open>startRound\<close> sets it.\<close>

definition roundTarget :: Target where
  "roundTarget = \<lparr> tg_r = 16, tg_p0 = (100, 550), tg_p1 = (300, 630), tg_p2 = (700, 470),
     tg_p3 = (900, 550), tg_t = 0, tg_dir = 1 \<rparr>"

text \<open>
  An arena with an obstacle above the start position and two collectibles, one of them
  to the right of the start position: the user picks the obstacle in the palette,
  clicks at \<open>(500, 210)\<close>, picks the collectible, clicks at \<open>(545, 160)\<close> and at
  \<open>(600, 300)\<close>, presses \<^verbatim>\<open>r\<close>, and the first timer tick arrives at 1000 ms.
\<close>

definition wall :: Obj where
  "wall = \<lparr> obj_x = 500, obj_y = 210, obj_r = 18, obj_type = OBJ_OBSTACLE \<rparr>"

definition nearCoin :: Obj where
  "nearCoin = \<lparr> obj_x = 545, obj_y = 160, obj_r = 14, obj_type = OBJ_COLLECT \<rparr>"

definition farCoin :: Obj where
  "farCoin = \<lparr> obj_x = 600, obj_y = 300, obj_r = 14, obj_type = OBJ_COLLECT \<rparr>"

definition prepare :: "event list" where
  "prepare = [EvMouse 0 0 80 640, EvMouse 0 0 500 490, EvMouse 0 0 240 640,
     EvMouse 0 0 545 540, EvMouse 0 0 600 400, EvKeyboard CHR ''r'' 0 0, EvTimer 1000]"

definition arena :: world where
  "arena = initWorld\<lparr>obstacles := [wall], collectibles := [nearCoin, farCoin],
     placeMode := PLACE_COL, target := roundTarget, phase := PHASE_PLAY, lastMs := 1000\<rparr>"

text \<open>The tick at 1100 ms with \<^verbatim>\<open>w\<close> held: the player runs into the obstacle.\<close>

definition hitTick :: world where
  "hitTick = tickClock 1100 (run (prepare @ [EvKeyboard CHR ''w'' 0 0]) initWorld)"

text \<open>The states of the first two clicks, and the round started after the first.\<close>

definition editObs :: world where
  "editObs = Mouse GLUT_LEFT_BUTTON GLUT_DOWN 80 640 initWorld"

definition editObs1 :: world where
  "editObs1 = Mouse GLUT_LEFT_BUTTON GLUT_DOWN 500 490 editObs"

definition playObs :: world where
  "playObs = Keyboard CHR ''r'' 0 0 editObs"

text \<open>The tick at 1100 ms with \<^verbatim>\<open>d\<close> held instead: the player moves onto the near collectible.\<close>

definition collectTick :: world where
  "collectTick = tickClock 1100 (run (prepare @ [EvKeyboard CHR ''d'' 0 0]) initWorld)"

text \<open>
  The state after the hit, that is after the tick at 1100 ms with \<^verbatim>\<open>w\<close> held; and the
  state after a round start there.
\<close>

definition afterHit :: world where
  "afterHit = run (prepare @ [EvKeyboard CHR ''w'' 0 0, EvTimer 1100]) initWorld"

definition restartArena :: world where
  "restartArena = arena\<lparr>keyW := True, lastMs := 1100, timeSec := 1 / 10,
      roundStart := 1 / 10, nextHitTime := 3 / 5\<rparr>"



text \<open>
  A state of the play phase with one life left: the player stands below an obstacle,
  within reach of the target at the start of its curve, and \<^verbatim>\<open>w\<close> is held.
\<close>

definition lastLife :: world where
  "lastLife = initWorld\<lparr>
     obstacles := [\<lparr> obj_x = 100, obj_y = 575, obj_r = 18, obj_type = OBJ_OBSTACLE \<rparr>],
     player := initPlayer\<lparr>pl_x := 100, pl_y := 530, pl_lives := 1\<rparr>,
     target := roundTarget, phase := PHASE_PLAY, timeSec := 10, nextHitTime := 5,
     keyW := True, lastMs := 11000\<rparr>"

section \<open>Single precision\<close>

text \<open>
  \<open>fl\<close> rounds to a multiple of the unit in the last place of the binade of its argument,
  it is monotone and odd, and it leaves every integer of magnitude up to \<open>2 ^ 24\<close> as it
  is.
\<close>

lemma pow2_powr: "pow2 k = 2 powr real_of_int k"
proof (cases "0 \<le> k")
  case True
  then show ?thesis by (simp add: pow2_def powr_realpow[symmetric])
next
  case False
  then have "2 powr real_of_int k = 1 / 2 powr real_of_int (- k)"
    by (simp add: powr_minus_divide)
  also have "\<dots> = 1 / 2 ^ nat (- k)"
    using False by (simp add: powr_realpow[symmetric])
  finally show ?thesis using False by (simp add: pow2_def)
qed

lemma pow2_pos [simp]: "0 < pow2 k"
  by (simp add: pow2_powr)

lemma pow2_add: "pow2 (a + b) = pow2 a * pow2 b"
  by (simp add: pow2_powr powr_add)

lemma pow2_mono: "a \<le> b \<Longrightarrow> pow2 a \<le> pow2 b"
  by (simp add: pow2_powr)

lemma pow2_nat: "0 \<le> k \<Longrightarrow> pow2 k = 2 ^ nat k"
  by (simp add: pow2_def)

lemma expo_spec:
  assumes "x \<noteq> 0"
  shows "expo x = max (- 126) \<lfloor>log 2 \<bar>x\<bar>\<rfloor>"
proof (cases "1 \<le> \<bar>x\<bar>")
  case True
  define a where "a = \<bar>x\<bar>"
  define k where "k = \<lfloor>log 2 a\<rfloor>"
  have a1: "1 \<le> a" using True by (simp add: a_def)
  have k0: "0 \<le> k" using a1 by (simp add: k_def)
  have b: "2 powr real_of_int k \<le> a" "a < 2 powr (real_of_int k + 1)"
    using a1 floor_log_eq_powr_iff[of a 2 k] by (simp_all add: k_def)
  have p: "2 powr real_of_int k = real_of_int (2 ^ nat k)"
    using k0 by (simp add: powr_realpow[symmetric])
  have l: "2 powr real_of_int k \<le> real_of_int \<lfloor>a\<rfloor>"
    unfolding p using b(1) p by (simp add: le_floor_iff)
  have u: "real_of_int \<lfloor>a\<rfloor> < 2 powr (real_of_int k + 1)"
    using b(2) by (meson of_int_floor_le le_less_trans)
  have fpos: "0 < \<lfloor>a\<rfloor>" using a1 by simp
  have "\<lfloor>log 2 (real_of_int \<lfloor>a\<rfloor>)\<rfloor> = k"
    using floor_log_eq_powr_iff[of "real_of_int \<lfloor>a\<rfloor>" 2 k] fpos l u by simp
  then have "bitlen \<lfloor>a\<rfloor> - 1 = k"
    using fpos by (simp add: bitlen_alt_def)
  then show ?thesis
    using True k0 assms by (simp add: expo_def Let_def a_def[symmetric] k_def[symmetric])
next
  case False
  define a where "a = \<bar>x\<bar>"
  define m where "m = \<lceil>1 / a\<rceil>"
  define b where "b = bitlen (m - 1)"
  have a0: "0 < a" "a < 1" using False assms by (simp_all add: a_def)
  have inv1: "1 < 1 / a" using a0 by simp
  have m2: "2 \<le> m" using inv1 by (simp add: m_def)
  have bb: "2 ^ nat (b - 1) \<le> m - 1" "m - 1 < 2 ^ nat b"
    using bitlen_bounds[of "m - 1"] m2 by (simp_all add: b_def)
  have b1: "1 \<le> b" using m2 by (simp add: b_def bitlen_alt_def)
  have c1: "real_of_int (m - 1) < 1 / a" "1 / a \<le> real_of_int m"
    unfolding m_def by linarith+
  have "(2::real) ^ nat (b - 1) \<le> real_of_int (m - 1)"
    using bb(1) by (simp only: numeral_power_le_of_int_cancel_iff)
  then have lo: "2 ^ nat (b - 1) < 1 / a" using c1(1) by linarith
  have "m \<le> 2 ^ nat b" using bb(2) by simp
  then have "real_of_int m \<le> 2 ^ nat b"
    by (simp only: of_int_le_numeral_power_cancel_iff)
  then have hi: "1 / a \<le> 2 ^ nat b" using c1(2) by linarith
  have pb: "2 powr real_of_int b = 2 ^ nat b"
    using b1 by (simp add: powr_realpow[symmetric])
  have pb1: "2 powr (real_of_int b - 1) = 2 ^ nat (b - 1)"
    using b1 by (simp add: powr_realpow[symmetric] of_nat_diff)
  have l: "2 powr real_of_int (- b) \<le> a"
  proof -
    have "2 powr real_of_int (- b) = 1 / 2 ^ nat b"
      using pb by (simp add: powr_minus_divide)
    also have "\<dots> \<le> a" using hi a0 by (simp add: field_simps)
    finally show ?thesis .
  qed
  have u: "a < 2 powr (real_of_int (- b) + 1)"
  proof -
    have "2 powr (real_of_int (- b) + 1) = 1 / 2 powr (real_of_int b - 1)"
      by (simp add: powr_minus_divide[symmetric])
    also have "\<dots> = 1 / 2 ^ nat (b - 1)" by (simp only: pb1)
    finally have e: "2 powr (real_of_int (- b) + 1) = 1 / 2 ^ nat (b - 1)" .
    show ?thesis unfolding e using lo a0 by (simp add: field_simps)
  qed
  have "\<lfloor>log 2 a\<rfloor> = - b"
    using floor_log_eq_powr_iff[of a 2 "- b"] a0 l u by simp
  then show ?thesis
    using False assms a0 by (simp add: expo_def Let_def a_def[symmetric] m_def[symmetric] b_def[symmetric])
qed

lemma expo_zero [simp]: "expo 0 = - 126"
  by (simp add: expo_def)

lemma expo_uminus [simp]: "expo (- x) = expo x"
  by (simp add: expo_def)

lemma expo_ge: "- 126 \<le> expo x"
  by (cases "x = 0") (simp_all add: expo_spec)

lemma expo_upper: "\<bar>x\<bar> < pow2 (expo x + 1)"
proof (cases "x = 0")
  case True
  then show ?thesis by simp
next
  case False
  have "\<bar>x\<bar> < 2 powr (real_of_int \<lfloor>log 2 \<bar>x\<bar>\<rfloor> + 1)"
    using False floor_log_eq_powr_iff[of "\<bar>x\<bar>" 2 "\<lfloor>log 2 \<bar>x\<bar>\<rfloor>"] by simp
  also have "\<dots> \<le> 2 powr (real_of_int (expo x) + 1)"
    using False by (simp add: expo_spec)
  finally show ?thesis by (simp add: pow2_powr)
qed

lemma expo_lower: "expo x \<noteq> - 126 \<Longrightarrow> pow2 (expo x) \<le> \<bar>x\<bar>"
proof -
  assume a: "expo x \<noteq> - 126"
  then have x: "x \<noteq> 0" by auto
  then have e: "expo x = \<lfloor>log 2 \<bar>x\<bar>\<rfloor>" using a by (simp add: expo_spec max_def split: if_splits)
  have "2 powr real_of_int \<lfloor>log 2 \<bar>x\<bar>\<rfloor> \<le> \<bar>x\<bar>"
    using x floor_log_eq_powr_iff[of "\<bar>x\<bar>" 2 "\<lfloor>log 2 \<bar>x\<bar>\<rfloor>"] by simp
  then show ?thesis by (simp add: pow2_powr e)
qed

lemma expo_mono: "\<bar>x\<bar> \<le> \<bar>y\<bar> \<Longrightarrow> expo x \<le> expo y"
proof (cases "x = 0")
  case True
  then show ?thesis by (simp add: expo_ge)
next
  case False
  assume a: "\<bar>x\<bar> \<le> \<bar>y\<bar>"
  then have y: "y \<noteq> 0" using False by auto
  have "log 2 \<bar>x\<bar> \<le> log 2 \<bar>y\<bar>" using a False by simp
  then have "\<lfloor>log 2 \<bar>x\<bar>\<rfloor> \<le> \<lfloor>log 2 \<bar>y\<bar>\<rfloor>" by (rule floor_mono)
  then show ?thesis using False y by (simp add: expo_spec)
qed

lemma pow2_nonneg [simp]: "0 \<le> pow2 k"
  using pow2_pos[of k] by (rule less_imp_le)

lemma rne_of_int [simp]: "rne (real_of_int n) = n"
  by (simp add: rne_def)

lemma rne_zero [simp]: "rne 0 = 0"
  by (simp add: rne_def)

lemma rne_cases: "rne y = \<lfloor>y\<rfloor> \<or> rne y = \<lfloor>y\<rfloor> + 1"
  by (simp add: rne_def Let_def)

lemma rne_mono:
  assumes "x \<le> y"
  shows "rne x \<le> rne y"
proof (cases "\<lfloor>x\<rfloor> = \<lfloor>y\<rfloor>")
  case True
  have "x - real_of_int \<lfloor>x\<rfloor> \<le> y - real_of_int \<lfloor>x\<rfloor>" using assms by simp
  then show ?thesis using True by (auto simp add: rne_def Let_def)
next
  case False
  have "\<lfloor>x\<rfloor> \<le> \<lfloor>y\<rfloor>" using assms by (rule floor_mono)
  then have "\<lfloor>x\<rfloor> + 1 \<le> \<lfloor>y\<rfloor>" using False by simp
  then show ?thesis using rne_cases[of x] rne_cases[of y] by linarith
qed

lemma rne_uminus: "rne (- y) = - rne y"
proof (cases "y = real_of_int \<lfloor>y\<rfloor>")
  case True
  then obtain k where k: "y = real_of_int k" ..
  have "rne (real_of_int (- k)) = - k" by (rule rne_of_int)
  then show ?thesis by (simp add: k)
next
  case False
  define n where "n = \<lfloor>y\<rfloor>"
  have n: "real_of_int n < y" "y < real_of_int n + 1"
    using False unfolding n_def by linarith+
  have f: "\<lfloor>- y\<rfloor> = - n - 1"
    using n by (simp add: floor_eq_iff)
  have ev: "even (- n - 1) \<longleftrightarrow> \<not> even n" by simp
  show ?thesis
    unfolding rne_def Let_def f n_def[symmetric] ev
    using n by auto
qed

lemma rne_ge: "real_of_int k \<le> y \<Longrightarrow> k \<le> rne y"
  using rne_mono[of "real_of_int k" y] by simp

lemma rne_le: "y \<le> real_of_int k \<Longrightarrow> rne y \<le> k"
  using rne_mono[of y "real_of_int k"] by simp

lemma fl_zero [simp]: "fl 0 = 0"
  by (simp add: fl_def)

lemma fl_uminus: "fl (- x) = - fl x"
  by (simp add: fl_def Let_def rne_uminus)

lemma fl_nonneg: "0 \<le> x \<Longrightarrow> 0 \<le> fl x"
proof -
  assume "0 \<le> x"
  then have "real_of_int 0 \<le> x / pow2 (expo x - 23)" by (simp add: divide_nonneg_pos)
  then have "0 \<le> rne (x / pow2 (expo x - 23))" by (rule rne_ge)
  then show ?thesis by (simp add: fl_def Let_def)
qed

lemma fl_upper:
  assumes "0 \<le> x"
  shows "fl x \<le> pow2 (expo x + 1)"
proof -
  define q where "q = pow2 (expo x - 23)"
  have q: "0 < q" by (simp add: q_def)
  have e: "pow2 (expo x + 1) = 2 ^ 24 * q"
    using pow2_add[of 24 "expo x - 23"] by (simp add: q_def pow2_nat add.commute)
  have "x < 2 ^ 24 * q" using expo_upper[of x] assms by (simp add: e)
  then have "x / q \<le> real_of_int (2 ^ 24)" using q by (simp add: field_simps)
  then have "rne (x / q) \<le> 2 ^ 24" by (rule rne_le)
  then have "real_of_int (rne (x / q)) \<le> 2 ^ 24"
    by (simp only: of_int_le_numeral_power_cancel_iff)
  then have "real_of_int (rne (x / q)) * q \<le> 2 ^ 24 * q" using q by simp
  then show ?thesis by (simp add: fl_def Let_def q_def[symmetric] e)
qed

lemma fl_lower:
  assumes "0 \<le> x" and "expo x \<noteq> - 126"
  shows "pow2 (expo x) \<le> fl x"
proof -
  define q where "q = pow2 (expo x - 23)"
  have q: "0 < q" by (simp add: q_def)
  have e: "pow2 (expo x) = 2 ^ 23 * q"
    using pow2_add[of 23 "expo x - 23"] by (simp add: q_def pow2_nat)
  have "2 ^ 23 * q \<le> x" using expo_lower[OF assms(2)] assms(1) by (simp add: e)
  then have "real_of_int (2 ^ 23) \<le> x / q" using q by (simp add: field_simps)
  then have "2 ^ 23 \<le> rne (x / q)" by (rule rne_ge)
  then have "2 ^ 23 \<le> real_of_int (rne (x / q))"
    by (simp only: numeral_power_le_of_int_cancel_iff)
  then have "2 ^ 23 * q \<le> real_of_int (rne (x / q)) * q" using q by simp
  then show ?thesis by (simp add: fl_def Let_def q_def[symmetric] e)
qed

lemma fl_mono_nonneg:
  assumes "0 \<le> x" and "x \<le> y"
  shows "fl x \<le> fl y"
proof (cases "expo x = expo y")
  case True
  have "x / pow2 (expo y - 23) \<le> y / pow2 (expo y - 23)"
    using assms(2) by (simp add: divide_right_mono)
  then have "rne (x / pow2 (expo y - 23)) \<le> rne (y / pow2 (expo y - 23))"
    by (rule rne_mono)
  then show ?thesis by (simp add: fl_def Let_def True)
next
  case False
  have "expo x \<le> expo y" using assms by (intro expo_mono) simp
  then have lt: "expo x + 1 \<le> expo y" using False by simp
  then have ne: "expo y \<noteq> - 126" using expo_ge[of x] by simp
  have "fl x \<le> pow2 (expo x + 1)" using assms(1) by (rule fl_upper)
  also have "\<dots> \<le> pow2 (expo y)" using lt by (rule pow2_mono)
  also have "\<dots> \<le> fl y" using assms ne by (intro fl_lower) simp_all
  finally show ?thesis .
qed

lemma fl_mono:
  assumes "x \<le> y"
  shows "fl x \<le> fl y"
proof -
  consider "0 \<le> x" | "y \<le> 0" | "x < 0" "0 < y" by linarith
  then show ?thesis
  proof cases
    case 1
    then show ?thesis using assms by (rule fl_mono_nonneg)
  next
    case 2
    then have "fl (- y) \<le> fl (- x)" using assms by (intro fl_mono_nonneg) simp_all
    then show ?thesis by (simp add: fl_uminus)
  next
    case 3
    have "0 \<le> fl (- x)" using 3 by (intro fl_nonneg) simp
    then have "fl x \<le> 0" by (simp add: fl_uminus)
    moreover have "0 \<le> fl y" using 3 by (intro fl_nonneg) simp
    ultimately show ?thesis by simp
  qed
qed

lemma fl_of_int:
  assumes "\<bar>n\<bar> \<le> 2 ^ 24"
  shows "fl (real_of_int n) = real_of_int n"
proof -
  have pos: "fl (real_of_int m) = real_of_int m" if m: "0 < m" "m \<le> 2 ^ 24" for m :: int
  proof (cases "m = 2 ^ 24")
    case True
    show ?thesis unfolding True by code_simp
  next
    case False
    then have lt: "m < 2 ^ 24" using m by simp
    define e where "e = expo (real_of_int m)"
    have m1: "1 \<le> \<bar>real_of_int m\<bar>" using m by simp
    have e0: "e = bitlen m - 1"
      using m m1 by (simp add: e_def expo_def Let_def)
    have bl: "2 ^ nat (bitlen m - 1) \<le> m" using bitlen_bounds[of m] m by simp
    have b1: "1 \<le> bitlen m" using m by (simp add: bitlen_alt_def)
    have "(2::int) ^ nat e < 2 ^ 24" using bl lt by (simp add: e0)
    then have "nat e < 24" by (simp only: power_strict_increasing_iff[of 2])
    then have e23: "0 \<le> e" "e \<le> 23" using b1 by (simp_all add: e0)
    define q where "q = pow2 (e - 23)"
    have q: "q = 1 / 2 ^ nat (23 - e)" using e23 by (simp add: q_def pow2_def)
    have "real_of_int m / q = real_of_int (m * 2 ^ nat (23 - e))" by (simp add: q)
    then have "rne (real_of_int m / q) = m * 2 ^ nat (23 - e)" by (simp only: rne_of_int)
    then have "real_of_int (rne (real_of_int m / q)) * q = real_of_int m" by (simp add: q)
    then show ?thesis by (simp add: fl_def Let_def e_def[symmetric] q_def[symmetric])
  qed
  consider "n = 0" | "0 < n" | "n < 0" by linarith
  then show ?thesis
  proof cases
    case 1
    then show ?thesis by simp
  next
    case 2
    then show ?thesis using assms pos[of n] by simp
  next
    case 3
    then have "fl (real_of_int (- n)) = real_of_int (- n)" using assms pos[of "- n"] by simp
    then show ?thesis by (simp add: fl_uminus)
  qed
qed

section \<open>Basic facts\<close>

lemma cint_of_int [simp]: "cint (real_of_int n) = n"
  by (simp add: cint_def)


lemma dist2_commute: "dist2 x1 y1 x2 y2 = dist2 x2 y2 x1 y1"
  by (simp add: dist2_def Let_def algebra_simps)

lemma dist2_less_iff:
  assumes "0 \<le> d"
  shows "dist2 x1 y1 x2 y2 < d * d \<longleftrightarrow> distance x1 y1 x2 y2 < d"
proof -
  have "sqrt (d * d) = d" using assms by simp
  then have "distance x1 y1 x2 y2 < d \<longleftrightarrow> sqrt (dist2 x1 y1 x2 y2) < sqrt (d * d)"
    by (simp add: distance_def)
  also have "\<dots> \<longleftrightarrow> dist2 x1 y1 x2 y2 < d * d" by (rule real_sqrt_less_iff)
  finally show ?thesis by simp
qed

lemma touches_cong:
  "pl_x p = pl_x q \<Longrightarrow> pl_y p = pl_y q \<Longrightarrow> pl_r p = pl_r q \<Longrightarrow> touches p = touches q"
  by (simp add: touches_def fun_eq_iff)

lemma touches_score [simp]: "touches (p\<lparr>pl_score := v\<rparr>) = touches p"
  by (rule touches_cong) simp_all

lemma touches_iff:
  "touches p ob \<longleftrightarrow>
     dist2 (pl_x p) (pl_y p) (obj_x ob) (obj_y ob)
       \<le> (pl_r p + obj_r ob) * (pl_r p + obj_r ob)"
  by (simp add: touches_def intersectCircleCircle_def Let_def)

lemma candidate_cong:
  "pl_x p = pl_x q \<Longrightarrow> pl_y p = pl_y q \<Longrightarrow> pl_r p = pl_r q \<Longrightarrow> candidate p = candidate q"
  by (simp add: candidate_def fun_eq_iff)

lemma onTarget_cong:
  "pl_x (player p) = pl_x (player q) \<Longrightarrow> pl_y (player p) = pl_y (player q) \<Longrightarrow>
   pl_r (player p) = pl_r (player q) \<Longrightarrow> target p = target q \<Longrightarrow> onTarget p = onTarget q"
  by (simp add: onTarget_def)

lemma targetCheck_eq: "targetCheck s = (if onTarget s then s\<lparr>phase := PHASE_WIN\<rparr> else s)"
  by (simp add: targetCheck_def onTarget_def Let_def)

section \<open>Placement\<close>

lemma overlapsAny_iff:
  assumes "0 \<le> r + PLACE_MIN_DIST"
  shows "overlapsAny s x y r \<longleftrightarrow> tooClose s x y r"
  using assms
  by (auto simp: overlapsAny_def tooClose_def entityPositions_def Let_def list_ex_iff
      dist2_less_iff simp del: PLACE_MIN_DIST_def)

lemma tooClose_code:
  "0 \<le> r + PLACE_MIN_DIST \<Longrightarrow> tooClose s x y r = overlapsAny s x y r"
  by (simp only: overlapsAny_iff)

lemma Mouse_outside_edit:
  "phase s \<noteq> PHASE_EDIT \<Longrightarrow> placed (Mouse button state x y s) = placed s"
  by (simp add: Mouse_def placed_def Let_def)

lemma Mouse_place:
  assumes "phase s = PHASE_EDIT" and "BOT_H < H - y"
    and "inGameArea (real_of_int x) (real_of_int (H - y))"
  shows "Mouse GLUT_LEFT_BUTTON GLUT_DOWN x y s
           = placeObject (placeMode s) (real_of_int x) (real_of_int (H - y)) s"
  using assms by (simp add: Mouse_def Let_def)

lemma placeObject_eq:
  assumes "m \<noteq> PLACE_NONE"
  shows "placeObject m x y s =
     (if overlapsAny s x y (placeRadius m) then s
      else addPlaced \<lparr> obj_x = x, obj_y = y, obj_r = placeRadius m, obj_type = placeType m \<rparr> s)"
  using assms
  by (cases m) (simp_all add: placeObject_def placeRadius_def placeType_def addPlaced_def)

section \<open>The Bezier evaluator and the target updater\<close>

lemma fl_one [simp]: "fl 1 = 1"
  using fl_of_int[of 1] by simp

lemma fl_numeral [simp]: "numeral k \<le> (2 ^ 24 :: int) \<Longrightarrow> fl (numeral k) = numeral k"
  using fl_of_int[of "numeral k"] by simp

lemma fl_le_one: "x \<le> 1 \<Longrightarrow> fl x \<le> 1"
  using fl_mono[of x 1] by simp

lemma fl_nonpos: "x \<le> 0 \<Longrightarrow> fl x \<le> 0"
  using fl_mono[of x 0] by simp

lemma exactFloat_small: "\<bar>n\<bar> \<le> 2 ^ 24 \<Longrightarrow> exactFloat n"
  by (simp add: exactFloat_def floatOfInt_def fl_of_int)

lemma exactFloat_numeral [simp]:
  "exactFloat 0" "exactFloat 1" "exactFloat (- 1)"
  "numeral k \<le> (2 ^ 24 :: int) \<Longrightarrow> exactFloat (numeral k)"
  by (simp_all add: exactFloat_small)

lemma floatOfInt_unit [simp]:
  "floatOfInt 0 = 0" "floatOfInt 1 = 1" "floatOfInt (- 1) = - 1"
  using exactFloat_numeral(1,2,3) by (simp_all add: exactFloat_def)

text \<open>At \<open>t = 0\<close> and at \<open>t = 1\<close> the evaluator converts an end point to \<^verbatim>\<open>float\<close> and back.\<close>

lemma bezierPoint_start:
  "exactFloat (fst p0) \<Longrightarrow> exactFloat (snd p0) \<Longrightarrow> bezierPoint 0 p0 p1 p2 p3 = p0"
  by (simp add: exactFloat_def floatOfInt_def bezierPoint_def Let_def fadd_def fsub_def fmul_def)

lemma bezierPoint_end:
  "exactFloat (fst p3) \<Longrightarrow> exactFloat (snd p3) \<Longrightarrow> bezierPoint 1 p0 p1 p2 p3 = p3"
  by (simp add: exactFloat_def floatOfInt_def bezierPoint_def Let_def fadd_def fsub_def fmul_def)

text \<open>Equations that evaluate the rounding at a numeral.\<close>

lemma fl_code: "fl x = real_of_int (rne (x / pow2 (expo x - 23))) * pow2 (expo x - 23)"
  by (simp add: fl_def Let_def)

lemma rne_code:
  "rne y = (if y - real_of_int \<lfloor>y\<rfloor> < 1 / 2 then \<lfloor>y\<rfloor>
      else if 1 / 2 < y - real_of_int \<lfloor>y\<rfloor> then \<lfloor>y\<rfloor> + 1
      else if even \<lfloor>y\<rfloor> then \<lfloor>y\<rfloor> else \<lfloor>y\<rfloor> + 1)"
  by (simp add: rne_def Let_def)

lemma expo_code:
  "expo x = (if \<bar>x\<bar> = 0 then - 126
      else if 1 \<le> \<bar>x\<bar> then bitlen \<lfloor>\<bar>x\<bar>\<rfloor> - 1
      else max (- 126) (- bitlen (\<lceil>1 / \<bar>x\<bar>\<rceil> - 1)))"
  by (simp add: expo_def Let_def)

lemmas fl_eval = fadd_def fsub_def fmul_def floatOfInt_def fl_code expo_code rne_code pow2_def
  compute_bitlen[of "numeral k" for k] compute_bitlen[of 1]

lemma speedT_nonneg: "0 \<le> fl 0.35"
  by (rule fl_nonneg) simp

lemma updateTarget_eq:
  "updateTarget dt s = s\<lparr>target :=
     (if 1 < targetRaw dt s then (target s)\<lparr>tg_t := 1, tg_dir := - 1\<rparr>
      else if targetRaw dt s < 0 then (target s)\<lparr>tg_t := 0, tg_dir := 1\<rparr>
      else (target s)\<lparr>tg_t := targetRaw dt s\<rparr>)\<rparr>"
  by (simp add: updateTarget_def targetRaw_def Let_def)

lemma updateTarget_t:
  "tg_t (target (updateTarget dt s)) =
     (if targetRaw dt s > 1 then 1 else if targetRaw dt s < 0 then 0 else targetRaw dt s)"
  by (simp add: updateTarget_eq)

lemma updateTarget_dir:
  "tg_dir (target (updateTarget dt s)) =
     (if targetRaw dt s > 1 then - 1 else if targetRaw dt s < 0 then 1 else tg_dir (target s))"
  by (simp add: updateTarget_eq)

lemma targetOk_updateTarget: "targetOk s \<Longrightarrow> targetOk (updateTarget dt s)"
  by (simp add: targetOk_def updateTarget_t updateTarget_dir)

lemma targetOk_targetRun: "targetOk s \<Longrightarrow> targetOk (targetRun dts s)"
  unfolding targetRun_def
  by (induction dts arbitrary: s) (simp_all add: targetOk_updateTarget)

text \<open>
  Rounding is monotone and keeps 0 and 1, so a step in the direction \<open>- 1\<close> does not
  carry the parameter above 1, and a step in the direction \<open>1\<close> not below 0.
\<close>

lemma targetRaw_up:
  assumes "targetOk s" and "0 < dt" and "1 < targetRaw dt s"
  shows "tg_dir (target s) = 1"
proof (rule ccontr)
  assume "tg_dir (target s) \<noteq> 1"
  then have d: "tg_dir (target s) = - 1" using assms(1) by (simp add: targetOk_def)
  have t: "tg_t (target s) \<le> 1" using assms(1) by (simp add: targetOk_def)
  have "fl (- 1 * fl 0.35) \<le> 0" using speedT_nonneg by (intro fl_nonpos) simp
  then have "fl (- 1 * fl 0.35) * dt \<le> 0" using assms(2) by (simp add: mult_le_0_iff)
  then have "fl (fl (- 1 * fl 0.35) * dt) \<le> 0" by (rule fl_nonpos)
  then have "tg_t (target s) + fl (fl (- 1 * fl 0.35) * dt) \<le> 1" using t by simp
  then have "fl (tg_t (target s) + fl (fl (- 1 * fl 0.35) * dt)) \<le> 1" by (rule fl_le_one)
  then have "targetRaw dt s \<le> 1"
    by (simp add: targetRaw_def d fadd_def fmul_def)
  with assms(3) show False by simp
qed

lemma targetRaw_down:
  assumes "targetOk s" and "0 < dt" and "targetRaw dt s < 0"
  shows "tg_dir (target s) = - 1"
proof (rule ccontr)
  assume "tg_dir (target s) \<noteq> - 1"
  then have d: "tg_dir (target s) = 1" using assms(1) by (simp add: targetOk_def)
  have t: "0 \<le> tg_t (target s)" using assms(1) by (simp add: targetOk_def)
  have "0 \<le> fl (1 * fl 0.35)" using speedT_nonneg by (intro fl_nonneg) simp
  then have "0 \<le> fl (1 * fl 0.35) * dt" using assms(2) by simp
  then have "0 \<le> fl (fl (1 * fl 0.35) * dt)" by (rule fl_nonneg)
  then have "0 \<le> tg_t (target s) + fl (fl (1 * fl 0.35) * dt)" using t by simp
  then have "0 \<le> fl (tg_t (target s) + fl (fl (1 * fl 0.35) * dt))" by (rule fl_nonneg)
  then have "0 \<le> targetRaw dt s"
    by (simp add: targetRaw_def d fadd_def fmul_def)
  with assms(3) show False by simp
qed

text \<open>The steps of the sample runs.\<close>

lemma targetRaw_samples:
  "tg_t (target s) = 0 \<Longrightarrow> tg_dir (target s) = 1 \<Longrightarrow> targetRaw 0 s = 0"
  "tg_t (target s) = 0 \<Longrightarrow> tg_dir (target s) = 1 \<Longrightarrow>
     targetRaw (1 / 10) s = 9395241 / 268435456"
  "tg_t (target s) = 0 \<Longrightarrow> tg_dir (target s) = 1 \<Longrightarrow>
     targetRaw (1199 / 20) s = 11000873 / 524288"
  "tg_t (target s) = 1 \<Longrightarrow> tg_dir (target s) = - 1 \<Longrightarrow>
     targetRaw (3 / 20) s = 3974103 / 4194304"
  by (simp_all add: targetRaw_def fl_eval)

lemma targetPos_samples:
  "targetPos initTarget = (0, 0)"
  "targetPos roundTarget = (100, 550)"
  "targetPos (roundTarget\<lparr>tg_t := 1, tg_dir := - 1\<rparr>) = (900, 550)"
  by (simp_all add: targetPos_def initTarget_def roundTarget_def bezierPoint_start bezierPoint_end)

lemma targetPos_inner:
  "targetPos (roundTarget\<lparr>tg_t := 9395241 / 268435456\<rparr>) = (121, 557)"
  "targetPos (roundTarget\<lparr>tg_t := 3974103 / 4194304, tg_dir := - 1\<rparr>) = (866, 539)"
  unfolding targetPos_def bezierPoint_def Let_def roundTarget_def
  by (simp_all add: cint_def fl_eval)

section \<open>The pick-up loops\<close>

text \<open>
  The loop over the collectibles keeps the elements the player does not touch, in order,
  and adds 5 to the score for each of the others: erasing at the index and staying there,
  or moving on, visits every element once.
\<close>

lemma collectLoop_eq:
  "collectLoop i s =
     s\<lparr>player := (player s)\<lparr>pl_score := pl_score (player s)
          + 5 * int (length (filter (touches (player s)) (drop i (collectibles s))))\<rparr>,
       collectibles := take i (collectibles s)
          @ filter (\<lambda>c. \<not> touches (player s) c) (drop i (collectibles s))\<rparr>"
proof (induction i s rule: collectLoop.induct)
  case (1 i s)
  show ?case
  proof (cases "i < length (collectibles s)")
    case False
    then show ?thesis by (subst collectLoop.simps) simp
  next
    case lt: True
    have dr: "drop i (collectibles s) = collectibles s ! i # drop (Suc i) (collectibles s)"
      using lt by (simp add: Cons_nth_drop_Suc)
    show ?thesis
    proof (cases "touches (player s) (collectibles s ! i)")
      case hit: True
      have step: "collectLoop i s = collectLoop i
             (s\<lparr>player := (player s)\<lparr>pl_score := pl_score (player s) + 5\<rparr>,
                collectibles := erase (collectibles s) i\<rparr>)"
        by (subst collectLoop.simps) (simp only: lt hit if_True)
      have e: "drop i (erase (collectibles s) i) = drop (Suc i) (collectibles s)"
         "take i (erase (collectibles s) i) = take i (collectibles s)"
        using lt by (simp_all add: erase_def min_def)
      show ?thesis
        unfolding step "1.IH"(1)[OF lt hit]
        by (simp add: e) (simp add: dr hit)
    next
      case miss: False
      have step: "collectLoop i s = collectLoop (i + 1) s"
        by (subst collectLoop.simps) (simp only: lt miss if_True if_False)
      show ?thesis
        unfolding step "1.IH"(2)[OF lt miss]
        by (simp add: dr miss take_Suc_conv_app_nth lt)
    qed
  qed
qed

text \<open>The loop over the power-ups changes the power-ups and the timers of the player only.\<close>

lemma powerupLoop_shape:
  "\<exists>a b c ps. powerupLoop i s =
     s\<lparr>player := (player s)\<lparr>pl_shielded := a, pl_shieldUntil := b, pl_speedUntil := c\<rparr>,
       powerups := ps\<rparr>"
proof (induction i s rule: powerupLoop.induct)
  case (1 i s)
  show ?case
  proof (cases "i < length (powerups s)")
    case False
    have "powerupLoop i s = s" using False by (subst powerupLoop.simps) simp
    moreover have "s = s\<lparr>player := (player s)\<lparr>pl_shielded := pl_shielded (player s),
        pl_shieldUntil := pl_shieldUntil (player s), pl_speedUntil := pl_speedUntil (player s)\<rparr>,
       powerups := powerups s\<rparr>" by simp
    ultimately have "powerupLoop i s = s\<lparr>player := (player s)\<lparr>pl_shielded := pl_shielded (player s),
        pl_shieldUntil := pl_shieldUntil (player s), pl_speedUntil := pl_speedUntil (player s)\<rparr>,
       powerups := powerups s\<rparr>" by (rule trans)
    then show ?thesis by (intro exI)
  next
    case lt: True
    show ?thesis
    proof (cases "touches (player s) (powerups s ! i)")
      case False
      have step: "powerupLoop i s = powerupLoop (i + 1) s"
        by (subst powerupLoop.simps) (simp only: lt False if_True if_False)
      show ?thesis unfolding step using "1.IH"(2)[OF lt False] .
    next
      case hit: True
      let ?s' = "(if obj_type (powerups s ! i) = OBJ_PU_SPEED then
                 s\<lparr>player := (player s)\<lparr>pl_speedUntil := timeSec s + POWERUP_DURATION\<rparr>\<rparr>
               else
                 s\<lparr>player := (player s)\<lparr>pl_shielded := True,
                      pl_shieldUntil := timeSec s + SHIELD_DURATION\<rparr>\<rparr>)
              \<lparr>powerups := erase (powerups s) i\<rparr>"
      have step: "powerupLoop i s = powerupLoop i ?s'"
        by (subst powerupLoop.simps) (simp only: lt hit if_True)
      from "1.IH"(1)[OF lt hit] obtain a b c ps where
        ih: "powerupLoop i ?s' = ?s'\<lparr>player := (player ?s')\<lparr>pl_shielded := a,
            pl_shieldUntil := b, pl_speedUntil := c\<rparr>, powerups := ps\<rparr>" by blast
      have eq: "?s'\<lparr>player := (player ?s')\<lparr>pl_shielded := a,
            pl_shieldUntil := b, pl_speedUntil := c\<rparr>, powerups := ps\<rparr>
          = s\<lparr>player := (player s)\<lparr>pl_shielded := a,
            pl_shieldUntil := b, pl_speedUntil := c\<rparr>, powerups := ps\<rparr>"
        by simp
      have "powerupLoop i s = s\<lparr>player := (player s)\<lparr>pl_shielded := a,
            pl_shieldUntil := b, pl_speedUntil := c\<rparr>, powerups := ps\<rparr>"
        by (rule trans[OF step]) (rule trans[OF ih eq])
      then show ?thesis by (intro exI)
    qed
  qed
qed

lemma powerupLoop_done: "length (powerups s) \<le> i \<Longrightarrow> powerupLoop i s = s"
  by (subst powerupLoop.simps) simp

lemma finish_shape:
  "\<exists>a b c ps. finish m =
     m\<lparr>player := (player m)\<lparr>pl_score := pl_score (player m)
            + 5 * int (length (filter (touches (player m)) (collectibles m))),
          pl_shielded := a, pl_shieldUntil := b, pl_speedUntil := c\<rparr>,
       collectibles := filter (\<lambda>c. \<not> touches (player m) c) (collectibles m),
       powerups := ps,
       phase := (if onTarget m then PHASE_WIN else phase m)\<rparr>"
proof -
  let ?q = "collectLoop 0 m"
  obtain a b c ps where p: "powerupLoop 0 ?q =
     ?q\<lparr>player := (player ?q)\<lparr>pl_shielded := a, pl_shieldUntil := b, pl_speedUntil := c\<rparr>,
       powerups := ps\<rparr>"
    using powerupLoop_shape[of 0 ?q] by blast
  have q: "?q = m\<lparr>player := (player m)\<lparr>pl_score := pl_score (player m)
          + 5 * int (length (filter (touches (player m)) (collectibles m)))\<rparr>,
       collectibles := filter (\<lambda>c. \<not> touches (player m) c) (collectibles m)\<rparr>"
    by (simp add: collectLoop_eq)
  have ot: "onTarget (powerupLoop 0 ?q) = onTarget m"
    by (rule onTarget_cong) (simp_all add: p, simp_all add: q)
  have "finish m =
     m\<lparr>player := (player m)\<lparr>pl_score := pl_score (player m)
            + 5 * int (length (filter (touches (player m)) (collectibles m))),
          pl_shielded := a, pl_shieldUntil := b, pl_speedUntil := c\<rparr>,
       collectibles := filter (\<lambda>c. \<not> touches (player m) c) (collectibles m),
       powerups := ps,
       phase := (if onTarget m then PHASE_WIN else phase m)\<rparr>"
    unfolding finish_def targetCheck_eq ot
    by (simp add: p) (simp add: q)
  then show ?thesis by (intro exI)
qed

lemma finish_fields:
  "obstacles (finish m) = obstacles m"
  "collectibles (finish m) = filter (\<lambda>c. \<not> touches (player m) c) (collectibles m)"
  "target (finish m) = target m"
  "nextHitTime (finish m) = nextHitTime m"
  "phase (finish m) = (if onTarget m then PHASE_WIN else phase m)"
  "placeMode (finish m) = placeMode m"
  "timeSec (finish m) = timeSec m"
  "roundStart (finish m) = roundStart m"
  "timeLeft (finish m) = timeLeft m"
  "lastMs (finish m) = lastMs m"
  "pl_x (player (finish m)) = pl_x (player m)"
  "pl_y (player (finish m)) = pl_y (player m)"
  "pl_r (player (finish m)) = pl_r (player m)"
  "pl_lives (player (finish m)) = pl_lives (player m)"
  "pl_score (player (finish m)) = pl_score (player m)
      + 5 * int (length (filter (touches (player m)) (collectibles m)))"
  using finish_shape[of m] by (auto split: if_splits)

lemma touches_finish: "touches (player (finish m)) = touches (player m)"
  by (rule touches_cong) (simp_all add: finish_fields)

lemma finish_nothing:
  assumes "filter (touches (player m)) (collectibles m) = []" and "powerups m = []"
    and "\<not> onTarget m"
  shows "finish m = m"
proof -
  have "filter (\<lambda>c. \<not> touches (player m) c) (collectibles m) = collectibles m"
    using assms(1) by (simp add: filter_empty_conv)
  then have c: "collectLoop 0 m = m" using assms(1) by (simp add: collectLoop_eq)
  have p: "powerupLoop 0 m = m" using assms(2) by (simp add: powerupLoop_done)
  show ?thesis using assms(3) by (simp add: finish_def c p targetCheck_eq)
qed

section \<open>The structure of a tick\<close>

lemma updateGame_other: "phase s \<noteq> PHASE_PLAY \<Longrightarrow> updateGame dt s = s"
  by (simp add: updateGame_def)

lemma updateGame_expired:
  "phase s = PHASE_PLAY \<Longrightarrow> timeLeft (countdown s) \<le> 0 \<Longrightarrow>
   updateGame dt s = (countdown s)\<lparr>phase := PHASE_LOSE\<rparr>"
  by (simp add: updateGame_def Let_def)

lemma updateGame_running:
  "phase s = PHASE_PLAY \<Longrightarrow> 0 < timeLeft (countdown s) \<Longrightarrow>
   updateGame dt s = targetCheck (powerupLoop 0 (collectLoop 0 (afterMove dt s)))"
  by (simp add: updateGame_def afterMove_def Let_def split: prod.splits)

lemma updateGame_finish:
  "phase s = PHASE_PLAY \<Longrightarrow> 0 < timeLeft (countdown s) \<Longrightarrow>
   updateGame dt s = finish (afterMove dt s)"
  by (simp add: updateGame_running finish_def)

lemma countdown_fields [simp]:
  "obstacles (countdown s) = obstacles s"
  "collectibles (countdown s) = collectibles s"
  "powerups (countdown s) = powerups s"
  "player (countdown s) = player s"
  "target (countdown s) = target s"
  "nextHitTime (countdown s) = nextHitTime s"
  "phase (countdown s) = phase s"
  "placeMode (countdown s) = placeMode s"
  "timeSec (countdown s) = timeSec s"
  "roundStart (countdown s) = roundStart s"
  "lastMs (countdown s) = lastMs s"
  by (simp_all add: countdown_def Let_def)

lemma inputVelocity_prepared [simp]:
  "inputVelocity (expirePowerups (countdown s)) = inputVelocity s"
  by (simp add: inputVelocity_def currentSpeed_def expirePowerups_def countdown_def Let_def)

lemma afterMove_eq:
  "afterMove dt s =
     tryMove (fst (inputVelocity s) * dt) (snd (inputVelocity s) * dt) dt (beforeMove s)"
  by (simp add: afterMove_def beforeMove_def Let_def split: prod.splits)

lemma beforeMove_fields [simp]:
  "obstacles (beforeMove s) = obstacles s"
  "collectibles (beforeMove s) = collectibles s"
  "powerups (beforeMove s) = powerups s"
  "target (beforeMove s) = target s"
  "nextHitTime (beforeMove s) = nextHitTime s"
  "phase (beforeMove s) = phase s"
  "placeMode (beforeMove s) = placeMode s"
  "timeSec (beforeMove s) = timeSec s"
  "roundStart (beforeMove s) = roundStart s"
  "timeLeft (beforeMove s) = timeLeft (countdown s)"
  "lastMs (beforeMove s) = lastMs s"
  "pl_x (player (beforeMove s)) = pl_x (player s)"
  "pl_y (player (beforeMove s)) = pl_y (player s)"
  "pl_r (player (beforeMove s)) = pl_r (player s)"
  "pl_lives (player (beforeMove s)) = pl_lives (player s)"
  "pl_score (player (beforeMove s)) = pl_score (player s)"
  "pl_shielded (player (beforeMove s)) =
     (pl_shielded (player s) \<and> \<not> timeSec s > pl_shieldUntil (player s))"
  by (simp_all add: beforeMove_def faceMovement_def expirePowerups_def countdown_def Let_def)

lemma candidate_beforeMove [simp]: "candidate (player (beforeMove s)) = candidate (player s)"
  by (rule candidate_cong) simp_all

lemma tickBlocked_eq:
  "tickBlocked dt s =
     list_ex (hitsSquare
        (fst (candidate (player s) (fst (inputVelocity s) * dt) (snd (inputVelocity s) * dt)))
        (snd (candidate (player s) (fst (inputVelocity s) * dt) (snd (inputVelocity s) * dt)))
        (pl_r (player s))) (obstacles s)"
  by (simp add: tickBlocked_def tickCandidate_def Let_def split: prod.splits)


lemma afterMove_blocked_hit:
  "tickBlocked dt s \<Longrightarrow> nextHitTime s \<le> timeSec s \<Longrightarrow> \<not> pl_shielded (player s) \<Longrightarrow>
   pl_lives (player (afterMove dt s)) = max 0 (pl_lives (player s) - 1)
   \<and> nextHitTime (afterMove dt s) = timeSec s + 1 / 2
   \<and> phase (afterMove dt s) = (if pl_lives (player s) \<le> 1 then PHASE_LOSE else phase s)"
  by (simp add: afterMove_eq tryMove_def tickBlocked_eq Let_def case_prod_beta)


lemma afterMove_fields [simp]:
  "obstacles (afterMove dt s) = obstacles s"
  "collectibles (afterMove dt s) = collectibles s"
  "powerups (afterMove dt s) = powerups s"
  "target (afterMove dt s) = target s"
  "timeSec (afterMove dt s) = timeSec s"
  "roundStart (afterMove dt s) = roundStart s"
  "timeLeft (afterMove dt s) = timeLeft (countdown s)"
  "lastMs (afterMove dt s) = lastMs s"
  "placeMode (afterMove dt s) = placeMode s"
  "pl_r (player (afterMove dt s)) = pl_r (player s)"
  "pl_score (player (afterMove dt s)) = pl_score (player s)"
  by (simp_all add: afterMove_eq tryMove_def Let_def case_prod_beta)

lemma afterMove_last_life:
  assumes "0 < pl_lives (player s)" and "pl_lives (player (afterMove dt s)) = 0"
  shows "phase (afterMove dt s) = PHASE_LOSE
    \<and> pl_x (player (afterMove dt s)) = pl_x (player s)
    \<and> pl_y (player (afterMove dt s)) = pl_y (player s)
    \<and> tickBlocked dt s \<and> nextHitTime s \<le> timeSec s"
  using assms
  by (auto simp add: afterMove_eq tryMove_def tickBlocked_eq Let_def case_prod_beta split: if_splits)

lemma afterMove_safe:
  "timeSec s < nextHitTime s \<Longrightarrow> pl_lives (player (afterMove dt s)) = pl_lives (player s)
     \<and> nextHitTime (afterMove dt s) = nextHitTime s \<and> phase (afterMove dt s) = phase s"
  by (simp add: afterMove_eq tryMove_def Let_def case_prod_beta)

lemma afterMove_nextHit: "nextHitTime s \<le> nextHitTime (afterMove dt s)"
  by (simp add: afterMove_eq tryMove_def Let_def case_prod_beta)

lemma afterMove_lives:
  "0 \<le> pl_lives (player s) \<Longrightarrow>
     0 \<le> pl_lives (player (afterMove dt s))
     \<and> pl_lives (player (afterMove dt s)) \<le> pl_lives (player s)
     \<and> (phase (afterMove dt s) = phase s \<and> (phase s = PHASE_PLAY \<longrightarrow> 1 \<le> pl_lives (player s) \<longrightarrow> 1 \<le> pl_lives (player (afterMove dt s)))
         \<or> phase (afterMove dt s) = PHASE_LOSE)"
  by (auto simp add: afterMove_eq tryMove_def Let_def case_prod_beta)

lemma afterMove_free:
  assumes "\<not> tickBlocked dt s"
  shows "afterMove dt s = (beforeMove s)\<lparr>player := (player (beforeMove s))
           \<lparr>pl_x := fst (tickCandidate dt s), pl_y := snd (tickCandidate dt s)\<rparr>\<rparr>"
  using assms
  by (simp add: afterMove_eq tryMove_def tickBlocked_eq tickCandidate_def Let_def case_prod_beta)

lemma afterMove_hit:
  assumes "tickBlocked dt s" and "nextHitTime s \<le> timeSec s"
    and "\<not> pl_shielded (player s)" and "1 < pl_lives (player s)"
  shows "afterMove dt s = (beforeMove s)\<lparr>player := (player (beforeMove s))
           \<lparr>pl_lives := pl_lives (player s) - 1\<rparr>, nextHitTime := timeSec s + 1 / 2\<rparr>"
  using assms
  by (simp add: afterMove_eq tryMove_def tickBlocked_eq Let_def case_prod_beta)

lemma tickDt_nonneg: "lastMs s \<le> nowMs \<Longrightarrow> 0 \<le> tickDt nowMs s"
  by (simp add: tickDt_def Let_def)

lemma tickClock_fields [simp]:
  "obstacles (tickClock nowMs s) = obstacles s"
  "collectibles (tickClock nowMs s) = collectibles s"
  "powerups (tickClock nowMs s) = powerups s"
  "player (tickClock nowMs s) = player s"
  "nextHitTime (tickClock nowMs s) = nextHitTime s"
  "phase (tickClock nowMs s) = phase s"
  "placeMode (tickClock nowMs s) = placeMode s"
  "timeSec (tickClock nowMs s) = timeSec s + tickDt nowMs s"
  "roundStart (tickClock nowMs s) = roundStart s"
  "timeLeft (tickClock nowMs s) = timeLeft s"
  "lastMs (tickClock nowMs s) = nowMs"
  by (simp_all add: tickClock_def updateTarget_def Let_def)

lemma Timer_eq:
  "Timer nowMs s =
     (if phase s = PHASE_PLAY then updateGame (tickDt nowMs s) (tickClock nowMs s)
      else tickClock nowMs s)"
  by (simp add: Timer_def Let_def)

lemma Timer_play:
  "phase s = PHASE_PLAY \<Longrightarrow> 0 < timeLeft (countdown (tickClock nowMs s)) \<Longrightarrow>
   Timer nowMs s = finish (afterMove (tickDt nowMs s) (tickClock nowMs s))"
  by (simp add: Timer_eq updateGame_finish)

section \<open>The invariant holds in every run\<close>

lemma invariant_init: "invariant initWorld"
  by (simp add: invariant_def invBase_def invClear_def initWorld_def initPlayer_def)

lemma invariant_updateGame:
  assumes "invariant s"
  shows "invariant (updateGame dt s)"
proof (cases "phase s = PHASE_PLAY")
  case False
  then show ?thesis using assms by (simp add: updateGame_other)
next
  case play: True
  show ?thesis
  proof (cases "0 < timeLeft (countdown s)")
    case False
    then have "updateGame dt s = (countdown s)\<lparr>phase := PHASE_LOSE\<rparr>"
      using play by (simp add: updateGame_expired)
    then show ?thesis using assms
      by (simp add: invariant_def invBase_def invClear_def)
  next
    case True
    let ?m = "afterMove dt s"
    have u: "updateGame dt s = finish ?m" using play True by (rule updateGame_finish)
    have b: "invBase s" and c: "invClear s" using assms by (simp_all add: invariant_def)
    from b have l0: "0 \<le> pl_lives (player s)" by (simp add: invBase_def)
    note al = afterMove_lives[OF l0, of dt]
    have ph: "phase ?m = PHASE_PLAY \<or> phase ?m = PHASE_LOSE" using al play by auto
    have "invBase (finish ?m)"
      unfolding invBase_def using b al ph play
      by (auto simp: finish_fields invBase_def list_all_iff split: if_splits)
    moreover have "invClear (finish ?m)"
      by (simp add: invClear_def touches_finish) (simp add: finish_fields list_all_iff)
    ultimately show ?thesis by (simp add: u invariant_def)
  qed
qed

lemma invariant_tickClock:
  assumes "invariant s" and "lastMs s \<le> nowMs"
  shows "invariant (tickClock nowMs s)"
  using assms tickDt_nonneg[OF assms(2)]
  by (simp add: invariant_def invBase_def invClear_def)

lemma invariant_Timer:
  "invariant s \<Longrightarrow> lastMs s \<le> nowMs \<Longrightarrow> invariant (Timer nowMs s)"
  by (simp add: Timer_eq invariant_updateGame invariant_tickClock)

lemma invariant_startRound: "invariant s \<Longrightarrow> invariant (startRound s)"
  by (auto simp: invariant_def invBase_def invClear_def startRound_def Let_def list_all_iff
        touches_def intersectCircleCircle_def)

lemma invariant_Keyboard: "invariant s \<Longrightarrow> invariant (Keyboard key x y s)"
  by (simp add: Keyboard_def invariant_startRound Let_def)
     (simp add: invariant_def invBase_def invClear_def)

lemma invariant_KeyboardUp: "invariant s \<Longrightarrow> invariant (KeyboardUp key x y s)"
  by (simp add: KeyboardUp_def Let_def invariant_def invBase_def invClear_def)

lemma invariant_Special: "invariant s \<Longrightarrow> invariant (Special key x y s)"
  by (simp add: Special_def Let_def invariant_def invBase_def invClear_def)

lemma invariant_SpecialUp: "invariant s \<Longrightarrow> invariant (SpecialUp key x y s)"
  by (simp add: SpecialUp_def Let_def invariant_def invBase_def invClear_def)

lemma invariant_placeObject:
  "invariant s \<Longrightarrow> phase s = PHASE_EDIT \<Longrightarrow> invariant (placeObject m x y s)"
  by (auto simp: placeObject_def invariant_def invBase_def invClear_def overlapsAny_def Let_def
        dist2_commute[of _ _ 500 160] split: if_splits)

lemma invariant_Mouse: "invariant s \<Longrightarrow> invariant (Mouse button state x y s)"
  by (simp add: Mouse_def Let_def invariant_placeObject)
     (simp add: invariant_def invBase_def invClear_def)

lemma invariant_handle: "invariant s \<Longrightarrow> admissible e s \<Longrightarrow> invariant (handle e s)"
  by (cases e)
     (simp_all add: invariant_Timer invariant_Keyboard invariant_KeyboardUp invariant_Special
        invariant_SpecialUp invariant_Mouse)

lemma reaches_invariant: "reaches s s' \<Longrightarrow> invariant s \<Longrightarrow> invariant s'"
  by (induction rule: reaches.induct) (simp_all add: invariant_handle)

lemma reachable_invariant: "reachable s \<Longrightarrow> invariant s"
  unfolding reachable_def using invariant_init by (rule reaches_invariant[rotated])

lemma playTick_invariant: "playTick dt s \<Longrightarrow> invariant s \<and> phase s = PHASE_PLAY \<and> 0 \<le> dt"
  by (auto simp: playTick_def reachable_invariant invariant_tickClock tickDt_nonneg)

lemma playTick_facts:
  assumes "playTick dt s"
  shows "phase s = PHASE_PLAY" and "roundStart s \<le> timeSec s" and "1 \<le> pl_lives (player s)"
    and "invClear s"
  using playTick_invariant[OF assms] by (simp_all add: invariant_def invBase_def)

section \<open>The time of the next hit never goes back\<close>

lemma updateGame_nextHit: "nextHitTime s \<le> nextHitTime (updateGame dt s)"
proof (cases "phase s = PHASE_PLAY")
  case False
  then show ?thesis by (simp add: updateGame_other)
next
  case play: True
  show ?thesis
  proof (cases "0 < timeLeft (countdown s)")
    case False
    then show ?thesis using play by (simp add: updateGame_expired)
  next
    case True
    then show ?thesis using play
      by (simp add: updateGame_finish finish_fields afterMove_nextHit)
  qed
qed

lemma updateGame_safe:
  assumes "timeSec s < nextHitTime s"
  shows "pl_lives (player (updateGame dt s)) = pl_lives (player s)"
proof (cases "phase s = PHASE_PLAY")
  case False
  then show ?thesis by (simp add: updateGame_other)
next
  case play: True
  show ?thesis
  proof (cases "0 < timeLeft (countdown s)")
    case False
    then show ?thesis using play by (simp add: updateGame_expired)
  next
    case True
    then show ?thesis using play afterMove_safe[OF assms, of dt]
      by (simp add: updateGame_finish finish_fields)
  qed
qed

lemma Timer_nextHit: "nextHitTime s \<le> nextHitTime (Timer nowMs s)"
  using updateGame_nextHit[of "tickClock nowMs s" "tickDt nowMs s"]
  by (simp add: Timer_eq)

lemma Timer_safe:
  "timeSec (tickClock nowMs s) < nextHitTime s \<Longrightarrow>
   pl_lives (player (Timer nowMs s)) = pl_lives (player s)"
  using updateGame_safe[of "tickClock nowMs s" "tickDt nowMs s"]
  by (simp add: Timer_eq)

lemma handle_nextHit: "nextHitTime s \<le> nextHitTime (handle e s)"
  by (cases e)
     (simp_all add: Timer_nextHit Keyboard_def KeyboardUp_def Special_def SpecialUp_def
        Mouse_def placeObject_def startRound_def Let_def)

lemma reaches_nextHit: "reaches s s' \<Longrightarrow> nextHitTime s \<le> nextHitTime s'"
  by (induction rule: reaches.induct) (auto intro: order_trans handle_nextHit)

lemma later_tick_safe:
  assumes "reaches s s2" and "timeSec (tickClock nowMs s2) < nextHitTime s"
  shows "pl_lives (player (Timer nowMs s2)) = pl_lives (player s2)"
proof -
  have "nextHitTime s \<le> nextHitTime s2" using assms(1) by (rule reaches_nextHit)
  then have "timeSec (tickClock nowMs s2) < nextHitTime s2" using assms(2) by simp
  then show ?thesis by (rule Timer_safe)
qed

section \<open>The sample runs\<close>

lemma reaches_first: "reaches t s' \<Longrightarrow> t = handle e s \<Longrightarrow> admissible e s \<Longrightarrow> reaches s s'"
proof (induction rule: reaches.induct)
  case (reaches_refl t)
  then show ?case using reaches.reaches_refl[of s] reaches.reaches_step[of s s e] by simp
next
  case (reaches_step t s' e')
  then show ?case by (simp add: reaches.reaches_step)
qed

lemma reaches_run: "admissibleRun es s \<Longrightarrow> reaches s (run es s)"
proof (induction es arbitrary: s)
  case Nil
  then show ?case by (simp add: run_def reaches_refl)
next
  case (Cons e es)
  then have r: "reaches (handle e s) (run es (handle e s))" by simp
  have a: "admissible e s" using Cons.prems by simp
  have "reaches s (run es (handle e s))" by (rule reaches_first[OF r refl a])
  then show ?case by (simp add: run_def)
qed

lemma reachable_step: "reachable s \<Longrightarrow> admissible e s \<Longrightarrow> reachable (handle e s)"
  unfolding reachable_def by (rule reaches_step)

lemma playTickI:
  "reachable s0 \<Longrightarrow> lastMs s0 \<le> nowMs \<Longrightarrow> phase s0 = PHASE_PLAY \<Longrightarrow>
   playTick (tickDt nowMs s0) (tickClock nowMs s0)"
  unfolding playTick_def by (intro exI[of _ s0] exI[of _ nowMs]) simp

text \<open>What a play-phase tick computes is what the timer callback computes in some run.\<close>

lemma playTick_Timer:
  assumes "playTick dt s"
  shows "\<exists>s0 nowMs. reachable s0 \<and> admissible (EvTimer nowMs) s0
           \<and> handle (EvTimer nowMs) s0 = updateGame dt s"
proof -
  from assms obtain s0 nowMs where h: "reachable s0" "lastMs s0 \<le> nowMs"
    "dt = tickDt nowMs s0" "s = tickClock nowMs s0" "phase s = PHASE_PLAY"
    unfolding playTick_def by blast
  have "phase s0 = PHASE_PLAY" using h(4,5) by simp
  then have "handle (EvTimer nowMs) s0 = updateGame dt s" using h(3,4) by (simp add: Timer_eq)
  with h(1,2) show ?thesis by auto
qed

lemma pressW: "Keyboard CHR ''w'' x y s = s\<lparr>keyW := True\<rparr>"
  by (simp add: Keyboard_def Let_def)

lemma pressD: "Keyboard CHR ''d'' x y s = s\<lparr>keyD := True\<rparr>"
  by (simp add: Keyboard_def Let_def)

lemmas place_defs = Mouse_def placeObject_def overlapsAny_def inGameArea_def dist2_def
  targetPos_def bezierPoint_start initWorld_def initPlayer_def initTarget_def Let_def

lemmas arena_defs = arena_def roundTarget_def wall_def nearCoin_def farCoin_def
  initWorld_def initPlayer_def initTarget_def

lemmas targetPos_literal = targetPos_inner[unfolded roundTarget_def, simplified]

lemma prepare1: "Mouse 0 0 80 640 initWorld = initWorld\<lparr>placeMode := PLACE_OBS\<rparr>"
  by (simp add: place_defs)

lemma prepare2: "Mouse 0 0 500 490 (initWorld\<lparr>placeMode := PLACE_OBS\<rparr>)
    = initWorld\<lparr>placeMode := PLACE_OBS, obstacles := [wall]\<rparr>"
  by (simp add: place_defs wall_def)

lemma prepare3: "Mouse 0 0 240 640 (initWorld\<lparr>placeMode := PLACE_OBS, obstacles := [wall]\<rparr>)
    = initWorld\<lparr>placeMode := PLACE_COL, obstacles := [wall]\<rparr>"
  by (simp add: place_defs)

lemma prepare4: "Mouse 0 0 545 540 (initWorld\<lparr>placeMode := PLACE_COL, obstacles := [wall]\<rparr>)
    = initWorld\<lparr>placeMode := PLACE_COL, obstacles := [wall], collectibles := [nearCoin]\<rparr>"
  by (simp add: place_defs wall_def nearCoin_def)

lemma prepare5: "Mouse 0 0 600 400 (initWorld\<lparr>placeMode := PLACE_COL, obstacles := [wall], collectibles := [nearCoin]\<rparr>)
    = initWorld\<lparr>placeMode := PLACE_COL, obstacles := [wall], collectibles := [nearCoin, farCoin]\<rparr>"
  by (simp add: place_defs wall_def nearCoin_def farCoin_def)

lemma prepare6: "Keyboard CHR ''r'' 0 0 (initWorld\<lparr>placeMode := PLACE_COL, obstacles := [wall], collectibles := [nearCoin, farCoin]\<rparr>)
    = arena\<lparr>lastMs := 0\<rparr>"
  by (simp add: Keyboard_def startRound_def arena_def roundTarget_def initWorld_def initPlayer_def initTarget_def)

lemma arena_tick0:
  "tickDt 1000 (arena\<lparr>lastMs := 0\<rparr>) = 0"
  "tickClock 1000 (arena\<lparr>lastMs := 0\<rparr>) = arena"
  by (simp_all add: tickDt_def tickClock_def updateTarget_eq targetRaw_samples arena_defs Let_def)

lemma arena_idle:
  "countdown arena = arena"
  "inputVelocity arena = (0, 0)"
  by (simp_all add: countdown_def inputVelocity_def currentSpeed_def cint_def arena_defs Let_def)

lemma arena_beforeMove: "beforeMove arena = arena"
  by (simp add: beforeMove_def arena_idle faceMovement_def expirePowerups_def)
     (simp add: arena_defs)

lemma arena_candidate: "tickCandidate 0 arena = (500, 160)"
  by (simp add: tickCandidate_def arena_idle candidate_def clampf_def) (simp add: arena_defs)

lemma arena_free: "\<not> tickBlocked 0 arena"
  by (simp add: tickBlocked_def arena_candidate)
     (simp add: arena_defs hitsSquare_def clampf_def dist2_def Let_def)

lemma arena_afterMove: "afterMove 0 arena = arena"
  by (simp add: afterMove_free[OF arena_free] arena_beforeMove arena_candidate)
     (simp add: arena_defs)

lemma arena_finish: "finish arena = arena"
  by (rule finish_nothing)
     (simp_all add: arena_defs touches_def intersectCircleCircle_def dist2_def onTarget_def
        targetPos_def bezierPoint_start Let_def)

lemma prepare7: "Timer 1000 (arena\<lparr>lastMs := 0\<rparr>) = arena"
proof -
  have "phase (arena\<lparr>lastMs := 0\<rparr>) = PHASE_PLAY" by (simp add: arena_def)
  moreover have "0 < timeLeft (countdown (tickClock 1000 (arena\<lparr>lastMs := 0\<rparr>)))"
    by (simp add: arena_tick0 arena_idle) (simp add: arena_defs)
  ultimately show ?thesis
    by (simp add: Timer_play arena_tick0 arena_afterMove arena_finish)
qed

lemma run_prepare: "run prepare initWorld = arena"
  by (simp add: run_def prepare_def prepare1 prepare2 prepare3 prepare4 prepare5 prepare6 prepare7)

lemma admissible_prepare: "admissibleRun prepare initWorld"
  by (simp add: prepare_def prepare1 prepare2 prepare3 prepare4 prepare5 prepare6)

lemma reachable_arena: "reachable arena"
  unfolding reachable_def using reaches_run[OF admissible_prepare] by (simp add: run_prepare)

lemma run_w: "run (prepare @ [EvKeyboard CHR ''w'' 0 0]) initWorld = arena\<lparr>keyW := True\<rparr>"
  using run_prepare by (simp add: run_def pressW)


lemma hitTick_eq:
  "hitTick = arena\<lparr>keyW := True, lastMs := 1100, timeSec := 1 / 10,
      target := roundTarget\<lparr>tg_t := 9395241 / 268435456\<rparr>\<rparr>"
  "tickDt 1100 (arena\<lparr>keyW := True\<rparr>) = 1 / 10"
  unfolding hitTick_def run_w
  by (simp_all add: tickClock_def tickDt_def updateTarget_eq targetRaw_samples arena_defs Let_def)


lemma hitTick_facts:
  "0 < timeLeft (countdown hitTick)"
  "inputVelocity hitTick = (0, 240)"
  "nextHitTime hitTick \<le> timeSec hitTick"
  "\<not> pl_shielded (player hitTick)"
  "pl_lives (player hitTick) = 5"
  "pl_x (player hitTick) = 500" "pl_y (player hitTick) = 160"
  "timeSec hitTick = 1 / 10" "lastMs hitTick = 1100"
  by (simp_all add: hitTick_eq countdown_def inputVelocity_def currentSpeed_def cint_def
       arena_defs Let_def)

lemma hitTick_candidate: "tickCandidate (1 / 10) hitTick = (500, 184)"
  by (simp add: tickCandidate_def hitTick_facts candidate_def clampf_def)
     (simp add: hitTick_eq arena_defs)

lemma hitTick_blocked: "tickBlocked (1 / 10) hitTick"
  by (simp add: tickBlocked_def hitTick_candidate)
     (simp add: hitTick_eq arena_defs hitsSquare_def clampf_def dist2_def Let_def)

lemma editObs_eq: "editObs = initWorld\<lparr>placeMode := PLACE_OBS\<rparr>"
  by (simp add: editObs_def Mouse_def dist2_def Let_def)

lemma editObs1_eq:
  "editObs1 = initWorld\<lparr>placeMode := PLACE_OBS,
     obstacles := [wall]\<rparr>"
  by (simp add: editObs1_def editObs_eq Mouse_def placeObject_def overlapsAny_def inGameArea_def
      initWorld_def initPlayer_def initTarget_def targetPos_def bezierPoint_start dist2_def
      wall_def Let_def)

lemma run_d: "run (prepare @ [EvKeyboard CHR ''d'' 0 0]) initWorld = arena\<lparr>keyD := True\<rparr>"
  using run_prepare by (simp add: run_def pressD)

lemma reachable_d: "reachable (arena\<lparr>keyD := True\<rparr>)"
  using reachable_step[OF reachable_arena, of "EvKeyboard CHR ''d'' 0 0"] by (simp add: pressD)

lemma collectTick_eq:
  "collectTick = arena\<lparr>keyD := True, lastMs := 1100, timeSec := 1 / 10,
      target := roundTarget\<lparr>tg_t := 9395241 / 268435456\<rparr>\<rparr>"
  "tickDt 1100 (arena\<lparr>keyD := True\<rparr>) = 1 / 10"
  unfolding collectTick_def run_d
  by (simp_all add: tickClock_def tickDt_def updateTarget_eq targetRaw_samples arena_defs Let_def)

lemma collectTick_play: "playTick (1 / 10) collectTick"
proof -
  have "playTick (tickDt 1100 (arena\<lparr>keyD := True\<rparr>)) (tickClock 1100 (arena\<lparr>keyD := True\<rparr>))"
    using reachable_d by (rule playTickI) (simp_all add: arena_def)
  then show ?thesis by (simp add: collectTick_eq(2)) (simp add: collectTick_def run_d)
qed

lemma collectTick_facts:
  "phase collectTick = PHASE_PLAY"
  "0 < timeLeft (countdown collectTick)"
  "inputVelocity collectTick = (240, 0)"
  "collectibles collectTick = [nearCoin, farCoin]"
  "pl_score (player collectTick) = 0"
  "pl_r (player collectTick) = 14"
  by (simp_all add: collectTick_eq countdown_def inputVelocity_def currentSpeed_def cint_def
       arena_defs Let_def)

lemma collectTick_candidate: "tickCandidate (1 / 10) collectTick = (524, 160)"
  by (simp add: tickCandidate_def collectTick_facts candidate_def clampf_def)
     (simp add: collectTick_eq arena_defs)

lemma collectTick_free: "\<not> tickBlocked (1 / 10) collectTick"
  by (simp add: tickBlocked_def collectTick_candidate)
     (simp add: collectTick_eq arena_defs hitsSquare_def clampf_def dist2_def Let_def)

lemma collectTick_result:
  "pl_x (player (updateGame (1 / 10) collectTick)) = 524"
  "pl_y (player (updateGame (1 / 10) collectTick)) = 160"
  "pl_r (player (updateGame (1 / 10) collectTick)) = 14"
  using collectTick_facts(1,2)
  by (simp_all add: updateGame_finish finish_fields afterMove_free[OF collectTick_free]
       collectTick_candidate collectTick_facts)

















lemma hitTick_beforeMove:
  "beforeMove hitTick =
     hitTick\<lparr>player := (player hitTick)\<lparr>pl_angleDeg := atan2f 240 0 * 57.29578\<rparr>\<rparr>"
  by (simp add: beforeMove_def hitTick_facts faceMovement_def expirePowerups_def)
     (simp add: hitTick_eq countdown_def cint_def arena_defs Let_def)

lemma hitTick_afterMove:
  "afterMove (1 / 10) hitTick =
     hitTick\<lparr>player := (player hitTick)\<lparr>pl_angleDeg := atan2f 240 0 * 57.29578,
                 pl_lives := 4\<rparr>, nextHitTime := 3 / 5\<rparr>"
proof -
  have "1 < pl_lives (player hitTick)" by (simp add: hitTick_facts)
  from afterMove_hit[OF hitTick_blocked hitTick_facts(3,4) this]
  show ?thesis by (simp add: hitTick_beforeMove hitTick_facts)
qed

lemma hitTick_finish:
  "finish (hitTick\<lparr>player := (player hitTick)\<lparr>pl_angleDeg := atan2f 240 0 * 57.29578,
                 pl_lives := 4\<rparr>, nextHitTime := 3 / 5\<rparr>)
   = hitTick\<lparr>player := (player hitTick)\<lparr>pl_angleDeg := atan2f 240 0 * 57.29578,
                 pl_lives := 4\<rparr>, nextHitTime := 3 / 5\<rparr>"
  by (rule finish_nothing)
     (simp_all add: hitTick_eq arena_defs touches_iff dist2_def onTarget_def
        targetPos_literal intersectCircleCircle_def Let_def)

lemma afterHit_eq:
  "afterHit = hitTick\<lparr>player := (player hitTick)\<lparr>pl_angleDeg := atan2f 240 0 * 57.29578,
                 pl_lives := 4\<rparr>, nextHitTime := 3 / 5\<rparr>"
proof -
  have "afterHit = Timer 1100 (arena\<lparr>keyW := True\<rparr>)"
    using run_w by (simp add: afterHit_def run_def)
  also have "\<dots> = updateGame (1 / 10) hitTick"
  proof -
    have ph: "phase (arena\<lparr>keyW := True\<rparr>) = PHASE_PLAY" by (simp add: arena_def)
    have hk: "tickClock 1100 (arena\<lparr>keyW := True\<rparr>) = hitTick"
      by (simp only: hitTick_def run_w)
    show ?thesis by (simp add: Timer_eq ph hitTick_eq(2) hk)
  qed
  also have "\<dots> = finish (afterMove (1 / 10) hitTick)"
    using hitTick_facts(1) by (simp add: updateGame_finish hitTick_eq(1) arena_def)
  finally show ?thesis by (simp only: hitTick_afterMove hitTick_finish)
qed

lemma restart_eq: "startRound afterHit = restartArena"
  by (simp add: afterHit_eq hitTick_eq startRound_def restartArena_def arena_defs Let_def)

lemma restartTick:
  "tickDt 1200 restartArena = 1 / 10"
  "tickClock 1200 restartArena = restartArena\<lparr>lastMs := 1200, timeSec := 1 / 5,
      target := roundTarget\<lparr>tg_t := 9395241 / 268435456\<rparr>\<rparr>"
  by (simp_all add: tickClock_def tickDt_def updateTarget_eq targetRaw_samples restartArena_def
       arena_defs Let_def)

lemma restartTick_velocity: "inputVelocity (tickClock 1200 restartArena) = (0, 240)"
  unfolding restartTick(2)
  by (simp add: inputVelocity_def currentSpeed_def restartArena_def arena_defs Let_def)

lemma restartTick_candidate: "tickCandidate (1 / 10) (tickClock 1200 restartArena) = (500, 184)"
  by (simp add: tickCandidate_def restartTick_velocity candidate_def clampf_def)
     (simp add: restartArena_def arena_defs)

lemma restartTick_blocked: "tickBlocked (1 / 10) (tickClock 1200 restartArena)"
  by (simp add: tickBlocked_def restartTick_candidate)
     (simp add: restartArena_def arena_defs hitsSquare_def clampf_def dist2_def Let_def)

lemma lastLife_facts:
  "phase lastLife = PHASE_PLAY"
  "0 < timeLeft (countdown lastLife)"
  "inputVelocity lastLife = (0, 240)"
  "nextHitTime lastLife \<le> timeSec lastLife"
  "\<not> pl_shielded (player lastLife)"
  "pl_lives (player lastLife) = 1"
  by (simp_all add: lastLife_def countdown_def inputVelocity_def currentSpeed_def cint_def
       initWorld_def initPlayer_def Let_def)

lemma lastLife_candidate: "tickCandidate (1 / 10) lastLife = (100, 554)"
  by (simp add: tickCandidate_def lastLife_facts candidate_def clampf_def)
     (simp add: lastLife_def initWorld_def initPlayer_def)

lemma lastLife_blocked: "tickBlocked (1 / 10) lastLife"
  by (simp add: tickBlocked_def lastLife_candidate)
     (simp add: lastLife_def initWorld_def initPlayer_def hitsSquare_def clampf_def dist2_def Let_def)

lemma lastLife_onTarget: "onTarget lastLife"
  by (simp add: lastLife_def initWorld_def initPlayer_def roundTarget_def onTarget_def
       targetPos_def bezierPoint_start intersectCircleCircle_def dist2_def Let_def)

section \<open>The claims\<close>

subsection \<open>C1: a blocked move\<close>




subsection \<open>C2: the countdown\<close>



subsection \<open>C3: collecting\<close>

text \<open>
  C3. In every play-phase tick the score grows by 5 for each collectible the circle of
  the player overlaps at the position the player has at the end of the tick, exactly
  those collectibles are removed, the others stay in their order, and the collection
  shrinks by their number.
\<close>

theorem pickup_score:
  assumes "playTick dt s"
  shows "pl_score (player (updateGame dt s)) =
           pl_score (player s)
           + 5 * int (length (filter (touches (player (updateGame dt s))) (collectibles s)))
    \<and> collectibles (updateGame dt s) =
           filter (\<lambda>c. \<not> touches (player (updateGame dt s)) c) (collectibles s)
    \<and> length (collectibles (updateGame dt s))
         + length (filter (touches (player (updateGame dt s))) (collectibles s))
         = length (collectibles s)"
proof -
  note f = playTick_facts[OF assms]
  let ?p = "player (updateGame dt s)"
  have main: "pl_score ?p = pl_score (player s)
           + 5 * int (length (filter (touches ?p) (collectibles s)))
    \<and> collectibles (updateGame dt s) = filter (\<lambda>c. \<not> touches ?p c) (collectibles s)"
  proof (cases "0 < timeLeft (countdown s)")
    case True
    have u: "updateGame dt s = finish (afterMove dt s)" using f(1) True by (rule updateGame_finish)
    show ?thesis unfolding u touches_finish by (simp add: finish_fields)
  next
    case False
    then have u: "updateGame dt s = (countdown s)\<lparr>phase := PHASE_LOSE\<rparr>"
      using f(1) by (simp add: updateGame_expired)
    have "list_all (\<lambda>c. \<not> touches (player s) c) (collectibles s)"
      using f(4) f(1) by (simp add: invClear_def)
    then have "filter (touches (player s)) (collectibles s) = []"
      and "filter (\<lambda>c. \<not> touches (player s) c) (collectibles s) = collectibles s"
      by (simp_all add: list_all_iff filter_empty_conv)
    then show ?thesis by (simp add: u)
  qed
  have "length (filter (\<lambda>c. \<not> touches ?p c) (collectibles s))
         + length (filter (touches ?p) (collectibles s)) = length (collectibles s)"
    using sum_length_filter_compl[of "touches ?p" "collectibles s"] by simp
  with main show ?thesis by simp
qed

theorem pickup_score_witness:
  "playTick (1 / 10) collectTick
   \<and> collectibles collectTick = [nearCoin, farCoin]
   \<and> pl_score (player collectTick) = 0
   \<and> touches (player (updateGame (1 / 10) collectTick)) nearCoin
   \<and> \<not> touches (player (updateGame (1 / 10) collectTick)) farCoin
   \<and> pl_score (player (updateGame (1 / 10) collectTick)) = 5
   \<and> collectibles (updateGame (1 / 10) collectTick) = [farCoin]"
proof -
  have t: "touches (player (updateGame (1 / 10) collectTick)) nearCoin"
    "\<not> touches (player (updateGame (1 / 10) collectTick)) farCoin"
    by (simp_all add: touches_iff collectTick_result nearCoin_def farCoin_def dist2_def Let_def)
  from pickup_score[OF collectTick_play] t collectTick_facts collectTick_play
  show ?thesis by simp
qed

subsection \<open>C4: the target updater\<close>

text \<open>
  C4, as the code has it. Start with the parameter in \<open>[0, 1]\<close> and the direction \<open>+1\<close>
  or \<open>-1\<close>. After every sequence of updates the parameter is in \<open>[0, 1]\<close> and the
  direction is \<open>+1\<close> or \<open>-1\<close>. A further update with \<open>dt > 0\<close> changes the direction
  exactly when the value that line 499 computes, the parameter plus direction times
  speed times \<open>dt\<close> in single precision, is beyond a bound: if it is greater than 1, the
  direction was \<open>+1\<close> and becomes \<open>-1\<close> with the parameter set to 1; if it is less than
  0, the direction was \<open>-1\<close> and becomes \<open>+1\<close> with the parameter set to 0; otherwise the
  parameter takes the computed value and the direction stays, also when that value is
  a bound itself.
\<close>

theorem target_ping_pong:
  assumes "targetOk s" and "0 < dt"
  shows "targetOk (targetRun dts s)
    \<and> (tg_dir (target (targetRun (dts @ [dt]) s)) \<noteq> tg_dir (target (targetRun dts s))
         \<longleftrightarrow> 1 < targetRaw dt (targetRun dts s) \<or> targetRaw dt (targetRun dts s) < 0)
    \<and> (1 < targetRaw dt (targetRun dts s) \<longrightarrow>
          tg_dir (target (targetRun dts s)) = 1
          \<and> tg_dir (target (targetRun (dts @ [dt]) s)) = - 1
          \<and> tg_t (target (targetRun (dts @ [dt]) s)) = 1)
    \<and> (targetRaw dt (targetRun dts s) < 0 \<longrightarrow>
          tg_dir (target (targetRun dts s)) = - 1
          \<and> tg_dir (target (targetRun (dts @ [dt]) s)) = 1
          \<and> tg_t (target (targetRun (dts @ [dt]) s)) = 0)
    \<and> (0 \<le> targetRaw dt (targetRun dts s) \<and> targetRaw dt (targetRun dts s) \<le> 1 \<longrightarrow>
          tg_t (target (targetRun (dts @ [dt]) s)) = targetRaw dt (targetRun dts s)
          \<and> tg_dir (target (targetRun (dts @ [dt]) s)) = tg_dir (target (targetRun dts s)))"
proof -
  let ?s = "targetRun dts s"
  have ok: "targetOk ?s" using assms(1) by (rule targetOk_targetRun)
  have step: "targetRun (dts @ [dt]) s = updateTarget dt ?s"
    by (simp add: targetRun_def)
  have up: "1 < targetRaw dt ?s \<Longrightarrow> tg_dir (target ?s) = 1"
    using ok assms(2) by (rule targetRaw_up)
  have down: "targetRaw dt ?s < 0 \<Longrightarrow> tg_dir (target ?s) = - 1"
    using ok assms(2) by (rule targetRaw_down)
  show ?thesis
    unfolding step using ok up down
    by (auto simp: updateTarget_t updateTarget_dir)
qed

theorem target_ping_pong_witness:
  "targetOk initWorld \<and> (0::real) < 2
   \<and> tg_t (target (targetRun [2] initWorld)) = 11744051 / 16777216
   \<and> tg_dir (target (targetRun [2] initWorld)) = 1
   \<and> targetRaw 2 (targetRun [2] initWorld) = 11744051 / 8388608
   \<and> tg_t (target (targetRun ([2] @ [2]) initWorld)) = 1
   \<and> tg_dir (target (targetRun ([2] @ [2]) initWorld)) = - 1
   \<and> tg_t (target (targetRun [2, 2, 2] initWorld)) = 5033165 / 16777216
   \<and> tg_dir (target (targetRun [2, 2, 2] initWorld)) = - 1
   \<and> targetRaw 2 (targetRun [2, 2, 2] initWorld) = - (3355443 / 8388608)
   \<and> tg_t (target (targetRun ([2, 2, 2] @ [2]) initWorld)) = 0
   \<and> tg_dir (target (targetRun ([2, 2, 2] @ [2]) initWorld)) = 1"
proof -
  have ok: "targetOk initWorld" by (simp add: targetOk_def initWorld_def initTarget_def)
  have pos: "(0::real) < 2" by simp
  have i: "tg_t (target initWorld) = 0" "tg_dir (target initWorld) = 1"
    by (simp_all add: initWorld_def initTarget_def)
  have r0: "targetRaw 2 initWorld = 11744051 / 16777216"
    by (simp add: targetRaw_def i fl_eval)
  have t1: "tg_t (target (targetRun [2] initWorld)) = 11744051 / 16777216"
    and d1: "tg_dir (target (targetRun [2] initWorld)) = 1"
    by (simp_all add: targetRun_def updateTarget_t updateTarget_dir r0 i)
  have raw1: "targetRaw 2 (targetRun [2] initWorld) = 11744051 / 8388608"
    by (simp add: targetRaw_def t1 d1 fl_eval)
  have t2: "tg_t (target (targetRun [2, 2] initWorld)) = 1"
    and d2: "tg_dir (target (targetRun [2, 2] initWorld)) = - 1"
    using raw1 by (simp_all add: targetRun_def updateTarget_t updateTarget_dir)
  have raw2: "targetRaw 2 (targetRun [2, 2] initWorld) = 5033165 / 16777216"
    by (simp add: targetRaw_def t2 d2 fl_eval)
  have s3: "targetRun [2, 2, 2] initWorld = updateTarget 2 (targetRun [2, 2] initWorld)"
    by (simp add: targetRun_def)
  have t3: "tg_t (target (targetRun [2, 2, 2] initWorld)) = 5033165 / 16777216"
    and d3: "tg_dir (target (targetRun [2, 2, 2] initWorld)) = - 1"
    unfolding s3 by (simp_all add: updateTarget_t updateTarget_dir raw2 d2)
  have raw3: "targetRaw 2 (targetRun [2, 2, 2] initWorld) = - (3355443 / 8388608)"
    by (simp add: targetRaw_def t3 d3 fl_eval)
  from target_ping_pong[OF ok pos, of "[2]"] raw1
  have up: "tg_dir (target (targetRun ([2] @ [2]) initWorld)) = - 1
      \<and> tg_t (target (targetRun ([2] @ [2]) initWorld)) = 1" by simp
  from target_ping_pong[OF ok pos, of "[2, 2, 2]"] raw3
  have down: "tg_dir (target (targetRun ([2, 2, 2] @ [2]) initWorld)) = 1
      \<and> tg_t (target (targetRun ([2, 2, 2] @ [2]) initWorld)) = 0" by simp
  from ok pos t1 d1 raw1 t3 d3 raw3 up down show ?thesis by blast
qed

text \<open>
  The claim C4 as stated fails when a step lands on a bound: the direction stays. With
  \<open>dt\<close> the \<^verbatim>\<open>float\<close> nearest to \<open>20 / 7\<close>, the first update takes the parameter from 0
  to exactly 1 and leaves the direction \<open>+1\<close>; the second flips the direction at 1; the
  third takes the parameter to exactly 0 and leaves the direction \<open>-1\<close>.
\<close>

theorem target_lands_on_bound:
  "targetOk initWorld \<and> 0 < fl (20 / 7)
   \<and> tg_t (target initWorld) = 0 \<and> tg_dir (target initWorld) = 1
   \<and> tg_t (target (targetRun [fl (20 / 7)] initWorld)) = 1
   \<and> tg_dir (target (targetRun [fl (20 / 7)] initWorld)) = 1
   \<and> tg_t (target (targetRun [fl (20 / 7), fl (20 / 7)] initWorld)) = 1
   \<and> tg_dir (target (targetRun [fl (20 / 7), fl (20 / 7)] initWorld)) = - 1
   \<and> tg_t (target (targetRun [fl (20 / 7), fl (20 / 7), fl (20 / 7)] initWorld)) = 0
   \<and> tg_dir (target (targetRun [fl (20 / 7), fl (20 / 7), fl (20 / 7)] initWorld)) = - 1"
proof -
  have dt: "fl (20 / 7) = 5991863 / 2097152" by (simp add: fl_eval)
  have ok: "targetOk initWorld" by (simp add: targetOk_def initWorld_def initTarget_def)
  have i: "tg_t (target initWorld) = 0" "tg_dir (target initWorld) = 1"
    by (simp_all add: initWorld_def initTarget_def)
  let ?d = "5991863 / 2097152 :: real"
  have r0: "targetRaw ?d initWorld = 1"
    by (simp add: targetRaw_def i fl_eval)
  have t1: "tg_t (target (targetRun [?d] initWorld)) = 1"
    and d1: "tg_dir (target (targetRun [?d] initWorld)) = 1"
    by (simp_all add: targetRun_def updateTarget_t updateTarget_dir r0 i)
  have r1: "targetRaw ?d (targetRun [?d] initWorld) = 2"
    by (simp add: targetRaw_def t1 d1 fl_eval)
  have s2: "targetRun [?d, ?d] initWorld = updateTarget ?d (targetRun [?d] initWorld)"
    by (simp add: targetRun_def)
  have t2: "tg_t (target (targetRun [?d, ?d] initWorld)) = 1"
    and d2: "tg_dir (target (targetRun [?d, ?d] initWorld)) = - 1"
    unfolding s2 by (simp_all add: updateTarget_t updateTarget_dir r1)
  have r2: "targetRaw ?d (targetRun [?d, ?d] initWorld) = 0"
    by (simp add: targetRaw_def t2 d2 fl_eval)
  have s3: "targetRun [?d, ?d, ?d] initWorld = updateTarget ?d (targetRun [?d, ?d] initWorld)"
    by (simp add: targetRun_def)
  have t3: "tg_t (target (targetRun [?d, ?d, ?d] initWorld)) = 0"
    and d3: "tg_dir (target (targetRun [?d, ?d, ?d] initWorld)) = - 1"
    unfolding s3 by (simp_all add: updateTarget_t updateTarget_dir r2 d2)
  show ?thesis unfolding dt using ok i t1 d1 t2 d2 t3 d3 by simp
qed

subsection \<open>C5: placement\<close>

text \<open>
  C5. A placement is attempted by a left click in the arena, above the palette, in the
  Edit phase with a placement kind selected. The candidate has the radius of its kind.
  The placement is rejected (nothing changes) whenever the point is closer than
  radius plus \<open>PLACE_MIN_DIST\<close> to an obstacle, a collectible, a power-up, the player or
  the derived position of the target; otherwise it succeeds and appends the object to
  the collection of its kind.
\<close>

theorem placement_distance:
  assumes "phase s = PHASE_EDIT" and "placeMode s \<noteq> PLACE_NONE" and "BOT_H < H - y"
    and "inGameArea (real_of_int x) (real_of_int (H - y))"
  shows "(tooClose s (real_of_int x) (real_of_int (H - y)) (placeRadius (placeMode s))
            \<longrightarrow> Mouse GLUT_LEFT_BUTTON GLUT_DOWN x y s = s)
       \<and> (\<not> tooClose s (real_of_int x) (real_of_int (H - y)) (placeRadius (placeMode s))
            \<longrightarrow> Mouse GLUT_LEFT_BUTTON GLUT_DOWN x y s =
                addPlaced \<lparr> obj_x = real_of_int x, obj_y = real_of_int (H - y),
                            obj_r = placeRadius (placeMode s),
                            obj_type = placeType (placeMode s) \<rparr> s)"
proof -
  let ?x = "real_of_int x" and ?y = "real_of_int (H - y)" and ?r = "placeRadius (placeMode s)"
  have "0 \<le> ?r + PLACE_MIN_DIST" by (simp add: placeRadius_def)
  then have o: "overlapsAny s ?x ?y ?r \<longleftrightarrow> tooClose s ?x ?y ?r"
    by (rule overlapsAny_iff)
  have m: "Mouse GLUT_LEFT_BUTTON GLUT_DOWN x y s = placeObject (placeMode s) ?x ?y s"
    using assms(1,3,4) by (rule Mouse_place)
  have p: "placeObject (placeMode s) ?x ?y s =
     (if overlapsAny s ?x ?y ?r then s
      else addPlaced \<lparr> obj_x = ?x, obj_y = ?y, obj_r = ?r,
             obj_type = placeType (placeMode s) \<rparr> s)"
    using assms(2) by (rule placeObject_eq)
  show ?thesis unfolding m p o by simp
qed

theorem placement_distance_witness:
  "phase editObs = PHASE_EDIT \<and> placeMode editObs = PLACE_OBS
   \<and> \<not> tooClose editObs 500 210 18
   \<and> Mouse GLUT_LEFT_BUTTON GLUT_DOWN 500 490 editObs = editObs1
   \<and> obstacles editObs1 = [wall]
   \<and> phase editObs1 = PHASE_EDIT \<and> placeMode editObs1 = PLACE_OBS
   \<and> tooClose editObs1 530 210 18
   \<and> Mouse GLUT_LEFT_BUTTON GLUT_DOWN 530 490 editObs1 = editObs1"
proof -
  have a: "phase editObs = PHASE_EDIT" "placeMode editObs \<noteq> PLACE_NONE" "placeMode editObs = PLACE_OBS"
    by (simp_all add: editObs_eq initWorld_def)
  have b: "phase editObs1 = PHASE_EDIT" "placeMode editObs1 \<noteq> PLACE_NONE" "placeMode editObs1 = PLACE_OBS"
    by (simp_all add: editObs1_eq initWorld_def)
  have g: "BOT_H < H - 490" "inGameArea (real_of_int 500) (real_of_int (H - 490))"
     "inGameArea (real_of_int 530) (real_of_int (H - 490))"
    by (simp_all add: inGameArea_def)
  have far: "\<not> tooClose editObs 500 210 18"
    by (simp add: tooClose_code editObs_eq overlapsAny_def initWorld_def initPlayer_def
        initTarget_def targetPos_def bezierPoint_start dist2_def Let_def)
  have near: "tooClose editObs1 530 210 18"
    by (simp add: tooClose_code editObs1_eq overlapsAny_def initWorld_def wall_def dist2_def Let_def)
  have o: "obstacles editObs1 = [wall]"
    by (simp add: editObs1_eq)
  from placement_distance[OF a(1,2) g(1,2)] far a(3)
  have 1: "Mouse GLUT_LEFT_BUTTON GLUT_DOWN 500 490 editObs = editObs1"
    by (simp add: editObs1_def)
  from placement_distance[OF b(1,2) g(1,3)] near b(3)
  have 2: "Mouse GLUT_LEFT_BUTTON GLUT_DOWN 530 490 editObs1 = editObs1"
    by (simp add: placeRadius_def)
  show ?thesis using a b far near o 1 2 by simp
qed

subsection \<open>C6: the ends of the Bezier curve\<close>

text \<open>
  C6, as the code has it. The evaluator converts the coordinates of the control points
  to \<^verbatim>\<open>float\<close>. For every four control points, it returns exactly \<open>p0\<close> at \<open>t = 0\<close> if the
  conversion leaves the two coordinates of \<open>p0\<close> as they are, and exactly \<open>p3\<close> at
  \<open>t = 1\<close> if it leaves the two coordinates of \<open>p3\<close> as they are; and it leaves every
  integer of magnitude up to \<open>2 ^ 24 = 16777216\<close> as it is.
\<close>

theorem bezierPoint_endpoints:
  "(exactFloat (fst p0) \<and> exactFloat (snd p0) \<longrightarrow> bezierPoint 0 p0 p1 p2 p3 = p0)
   \<and> (exactFloat (fst p3) \<and> exactFloat (snd p3) \<longrightarrow> bezierPoint 1 p0 p1 p2 p3 = p3)
   \<and> (\<bar>n\<bar> \<le> 2 ^ 24 \<longrightarrow> exactFloat n)"
  by (simp add: bezierPoint_start bezierPoint_end exactFloat_small)

theorem bezierPoint_endpoints_witness:
  "exactFloat 100 \<and> exactFloat 550 \<and> exactFloat (- 16777216) \<and> exactFloat 33554432
   \<and> \<bar>- 16777216 :: int\<bar> \<le> 2 ^ 24
   \<and> bezierPoint 0 (100, 550) (300, 630) (700, 470) (- 16777216, 33554432) = (100, 550)
   \<and> bezierPoint 1 (100, 550) (300, 630) (700, 470) (- 16777216, 33554432)
       = (- 16777216, 33554432)"
proof -
  have e: "exactFloat 100" "exactFloat 550" by simp_all
  have f: "exactFloat 33554432" by (simp add: exactFloat_def fl_eval)
  have b: "\<bar>- 16777216 :: int\<bar> \<le> 2 ^ 24" by simp
  from bezierPoint_endpoints[of "(100, 550)" "(300, 630)" "(700, 470)"
      "(- 16777216, 33554432)" "- 16777216"] e f b
  show ?thesis by simp
qed

text \<open>
  The claim C6 as stated fails for a control point that \<^verbatim>\<open>float\<close> cannot hold: the
  conversion rounds \<open>16777217 = 2 ^ 24 + 1\<close> to \<open>16777216\<close>.
\<close>

theorem bezierPoint_rounds_start:
  "\<not> exactFloat 16777217
   \<and> bezierPoint 0 (16777217, 0) (0, 0) (0, 0) (0, 0) = (16777216, 0)
   \<and> bezierPoint 1 (0, 0) (0, 0) (0, 0) (0, 16777217) = (0, 16777216)"
proof -
  have "\<not> exactFloat 16777217" by (simp add: exactFloat_def fl_eval)
  moreover have "bezierPoint 0 (16777217, 0) (0, 0) (0, 0) (0, 0) = (16777216, 0)"
    unfolding bezierPoint_def Let_def by (simp add: cint_def fl_eval)
  moreover have "bezierPoint 1 (0, 0) (0, 0) (0, 0) (0, 16777217) = (0, 16777216)"
    unfolding bezierPoint_def Let_def by (simp add: cint_def fl_eval)
  ultimately show ?thesis by simp
qed

subsection \<open>C7: the round start\<close>

text \<open>
  C7. In every state, so in every state whose phase is Win or Lose, the round start
  (the key \<^verbatim>\<open>r\<close> or \<^verbatim>\<open>R\<close>) sets the lives to \<open>MAX_LIVES\<close>, the score to 0, the phase to Play and the countdown
  to the full round time (the displayed value, and the value the next countdown step
  computes, the round having started now), and leaves the obstacles, the collectibles
  and the power-ups as they are.
\<close>

theorem startRound_resets:
  "Keyboard CHR ''r'' x y s = startRound s
   \<and> Keyboard CHR ''R'' x y s = startRound s
   \<and> pl_lives (player (startRound s)) = MAX_LIVES
   \<and> pl_score (player (startRound s)) = 0
   \<and> phase (startRound s) = PHASE_PLAY
   \<and> timeLeft (startRound s) = ROUND_TIME_SEC
   \<and> roundStart (startRound s) = timeSec (startRound s)
   \<and> timeLeft (countdown (startRound s)) = ROUND_TIME_SEC
   \<and> obstacles (startRound s) = obstacles s
   \<and> collectibles (startRound s) = collectibles s
   \<and> powerups (startRound s) = powerups s"
  by (simp add: Keyboard_def) (simp add: startRound_def countdown_def cint_def Let_def)

subsection \<open>C8: clicks outside the Edit phase\<close>

text \<open>
  C8, as the code has it. Outside the Edit phase no click creates an object: the three
  collections stay as they are, whatever the click and the placement kind.
\<close>

theorem Mouse_gated_by_phase:
  "phase s \<noteq> PHASE_EDIT \<Longrightarrow> placed (Mouse button state x y s) = placed s"
  by (rule Mouse_outside_edit)

theorem Mouse_gated_by_phase_witness:
  "phase playObs \<noteq> PHASE_EDIT \<and> placeMode playObs = PLACE_OBS
   \<and> inGameArea (real_of_int 500) (real_of_int (H - 400))
   \<and> placed (Mouse GLUT_LEFT_BUTTON GLUT_DOWN 500 400 playObs) = placed playObs"
proof -
  have a: "phase playObs \<noteq> PHASE_EDIT" "placeMode playObs = PLACE_OBS"
    by (simp_all add: playObs_def Keyboard_def startRound_def editObs_eq initWorld_def)
  show ?thesis using a Mouse_gated_by_phase[OF a(1), of GLUT_LEFT_BUTTON GLUT_DOWN 500 400]
    by (simp add: inGameArea_def)
qed

text \<open>
  The claim C8 as stated, that some click in the arena outside the Edit phase with a
  placement kind selected creates an object, fails: there is no such click.
\<close>

theorem no_placement_outside_edit:
  "\<not> (\<exists>s button state x y. phase s \<noteq> PHASE_EDIT \<and> placeMode s \<noteq> PLACE_NONE
        \<and> inGameArea (real_of_int x) (real_of_int (H - y))
        \<and> placed (Mouse button state x y s) \<noteq> placed s)"
  using Mouse_outside_edit by blast

subsection \<open>C9: the invulnerability window and the round start\<close>

text \<open>
  C9. The round start leaves \<open>nextHitTime\<close> as it is, so the invulnerability window of
  a hit before the restart carries over: in the new round, whatever happens in between,
  a tick whose time is still before that \<open>nextHitTime\<close> costs no life, also when the
  player runs into an obstacle.
\<close>

theorem hit_time_survives_restart:
  "nextHitTime (startRound s) = nextHitTime s
   \<and> (\<forall>s2 nowMs. reaches (startRound s) s2 \<and> timeSec (tickClock nowMs s2) < nextHitTime s \<longrightarrow>
         pl_lives (player (Timer nowMs s2)) = pl_lives (player s2))"
proof -
  have n: "nextHitTime (startRound s) = nextHitTime s" by (simp add: startRound_def Let_def)
  have "pl_lives (player (Timer nowMs s2)) = pl_lives (player s2)"
    if "reaches (startRound s) s2" "timeSec (tickClock nowMs s2) < nextHitTime s" for s2 nowMs
    using that later_tick_safe[of "startRound s" s2 nowMs] by (simp add: n)
  with n show ?thesis by blast
qed

theorem hit_time_survives_restart_witness:
  "nextHitTime afterHit = 3 / 5 \<and> pl_lives (player afterHit) = 4
   \<and> nextHitTime (startRound afterHit) = 3 / 5
   \<and> pl_lives (player (startRound afterHit)) = 5
   \<and> timeSec (tickClock 1200 (startRound afterHit)) = 1 / 5
   \<and> tickBlocked (1 / 10) (tickClock 1200 (startRound afterHit))
   \<and> \<not> pl_shielded (player (tickClock 1200 (startRound afterHit)))
   \<and> pl_lives (player (Timer 1200 (startRound afterHit))) = 5"
proof -
  have a: "nextHitTime afterHit = 3 / 5" "pl_lives (player afterHit) = 4"
    by (simp_all add: afterHit_eq)
  have b: "pl_lives (player (startRound afterHit)) = 5"
    "\<not> pl_shielded (player (startRound afterHit))"
    by (simp_all add: restart_eq restartArena_def arena_defs)
  have c: "timeSec (tickClock 1200 (startRound afterHit)) = 1 / 5"
    by (simp add: restart_eq restartTick(1)) (simp add: restartArena_def arena_defs)
  have r: "reaches (startRound afterHit) (startRound afterHit)" by (rule reaches_refl)
  from hit_time_survives_restart[of afterHit] r a c
  have "nextHitTime (startRound afterHit) = 3 / 5
      \<and> pl_lives (player (Timer 1200 (startRound afterHit))) = pl_lives (player (startRound afterHit))"
    by simp
  with a b c restartTick_blocked show ?thesis by (simp add: restart_eq)
qed

subsection \<open>C10: the last life and the target\<close>

text \<open>
  C10. Take a tick of the play phase that reaches the movement step and in which the
  blocked-movement check takes the last life, while the circle of the player overlaps
  the target. The movement was blocked, the check set the phase to Lose, and at the end
  of the tick the lives are 0 and the phase is Win.
\<close>

theorem win_overrides_lose:
  assumes "phase s = PHASE_PLAY" and "0 < timeLeft (countdown s)"
    and "0 < pl_lives (player s)" and "pl_lives (player (afterMove dt s)) = 0"
    and "onTarget s"
  shows "tickBlocked dt s \<and> phase (afterMove dt s) = PHASE_LOSE
    \<and> pl_lives (player (updateGame dt s)) = 0 \<and> phase (updateGame dt s) = PHASE_WIN"
proof -
  let ?m = "afterMove dt s"
  note l = afterMove_last_life[OF assms(3,4)]
  have u: "updateGame dt s = finish ?m" using assms(1,2) by (rule updateGame_finish)
  have "onTarget ?m = onTarget s"
    using l by (intro onTarget_cong) simp_all
  then have "onTarget ?m" using assms(5) by simp
  then show ?thesis using l assms(4) by (simp add: u finish_fields)
qed

theorem win_overrides_lose_witness:
  "phase lastLife = PHASE_PLAY \<and> 0 < timeLeft (countdown lastLife)
   \<and> pl_lives (player lastLife) = 1
   \<and> pl_lives (player (afterMove (1 / 10) lastLife)) = 0
   \<and> onTarget lastLife
   \<and> tickBlocked (1 / 10) lastLife
   \<and> phase (afterMove (1 / 10) lastLife) = PHASE_LOSE
   \<and> pl_lives (player (updateGame (1 / 10) lastLife)) = 0
   \<and> phase (updateGame (1 / 10) lastLife) = PHASE_WIN"
proof -
  have d: "pl_lives (player (afterMove (1 / 10) lastLife)) = 0"
    using afterMove_blocked_hit[OF lastLife_blocked lastLife_facts(4,5)] lastLife_facts(6)
    by simp
  have p: "0 < pl_lives (player lastLife)" by (simp add: lastLife_facts)
  from win_overrides_lose[OF lastLife_facts(1,2) p d lastLife_onTarget]
    lastLife_facts d lastLife_onTarget
  show ?thesis by simp
qed


end
